theory Spec2Isabelle
  imports Complex_Main "HOL-Library.AList" "HOL-Library.Multiset"
begin

section \<open>JavaScript numbers\<close>

text \<open>
  A JavaScript Number is modelled as an exact real or one of the three non-finite values.
  The arithmetic below follows IEEE 754 on the non-finite values and on division by zero;
  a finite result is the exact one, and the only zero is \<open>Fin 0\<close>, read as \<open>+0\<close>. The
  rounding of a finite result to a double is applied on top of an operation by \<open>js_fl\<close>,
  defined at the end of this section, in the functions whose statements depend on it.
\<close>

datatype jsnum = NaN | PInf | NInf | Fin real

fun js_gt :: "jsnum \<Rightarrow> jsnum \<Rightarrow> bool" where
  "js_gt (Fin a) (Fin b) = (b < a)"
| "js_gt (Fin a) NInf = True"
| "js_gt PInf (Fin b) = True"
| "js_gt PInf NInf = True"
| "js_gt _ _ = False"

fun js_ge :: "jsnum \<Rightarrow> jsnum \<Rightarrow> bool" where
  "js_ge (Fin a) (Fin b) = (b \<le> a)"
| "js_ge (Fin a) NInf = True"
| "js_ge PInf (Fin b) = True"
| "js_ge PInf NInf = True"
| "js_ge PInf PInf = True"
| "js_ge NInf NInf = True"
| "js_ge _ _ = False"

definition js_le :: "jsnum \<Rightarrow> jsnum \<Rightarrow> bool" where
  "js_le a b = js_ge b a"

fun js_neg :: "jsnum \<Rightarrow> jsnum" where
  "js_neg (Fin a) = Fin (- a)"
| "js_neg PInf = NInf"
| "js_neg NInf = PInf"
| "js_neg NaN = NaN"

fun js_abs :: "jsnum \<Rightarrow> jsnum" where
  "js_abs (Fin a) = Fin \<bar>a\<bar>"
| "js_abs PInf = PInf"
| "js_abs NInf = PInf"
| "js_abs NaN = NaN"

fun js_add :: "jsnum \<Rightarrow> jsnum \<Rightarrow> jsnum" where
  "js_add (Fin a) (Fin b) = Fin (a + b)"
| "js_add (Fin a) PInf = PInf"
| "js_add (Fin a) NInf = NInf"
| "js_add PInf (Fin b) = PInf"
| "js_add NInf (Fin b) = NInf"
| "js_add PInf PInf = PInf"
| "js_add NInf NInf = NInf"
| "js_add _ _ = NaN"

definition js_sub :: "jsnum \<Rightarrow> jsnum \<Rightarrow> jsnum" where
  "js_sub a b = js_add a (js_neg b)"

fun js_mul :: "jsnum \<Rightarrow> jsnum \<Rightarrow> jsnum" where
  "js_mul (Fin a) (Fin b) = Fin (a * b)"
| "js_mul (Fin a) PInf = (if a = 0 then NaN else if 0 < a then PInf else NInf)"
| "js_mul (Fin a) NInf = (if a = 0 then NaN else if 0 < a then NInf else PInf)"
| "js_mul PInf (Fin b) = (if b = 0 then NaN else if 0 < b then PInf else NInf)"
| "js_mul NInf (Fin b) = (if b = 0 then NaN else if 0 < b then NInf else PInf)"
| "js_mul PInf PInf = PInf"
| "js_mul NInf NInf = PInf"
| "js_mul PInf NInf = NInf"
| "js_mul NInf PInf = NInf"
| "js_mul _ _ = NaN"

fun js_div :: "jsnum \<Rightarrow> jsnum \<Rightarrow> jsnum" where
  "js_div (Fin a) (Fin b) =
     (if b \<noteq> 0 then Fin (a / b)
      else if a = 0 then NaN else if 0 < a then PInf else NInf)"
| "js_div (Fin a) PInf = Fin 0"
| "js_div (Fin a) NInf = Fin 0"
| "js_div PInf (Fin b) = (if 0 \<le> b then PInf else NInf)"
| "js_div NInf (Fin b) = (if 0 \<le> b then NInf else PInf)"
| "js_div _ _ = NaN"

text \<open>\<open>Math.round\<close>: the nearest integer, a tie going towards \<open>+\<infinity>\<close>.\<close>

fun js_round :: "jsnum \<Rightarrow> jsnum" where
  "js_round (Fin a) = Fin (of_int \<lfloor>a + 1 / 2\<rfloor>)"
| "js_round v = v"

text \<open>Truthiness of a Number: \<open>0\<close> and \<open>NaN\<close> are falsy.\<close>

fun js_truthy :: "jsnum \<Rightarrow> bool" where
  "js_truthy (Fin a) = (a \<noteq> 0)"
| "js_truthy NaN = False"
| "js_truthy _ = True"

text \<open>
  Binary rounding. A double is \<open>m * 2 ^ e\<close> with \<open>|m| < 2 ^ 53\<close> and \<open>-1074 \<le> e \<le> 971\<close>. An
  arithmetic operation of JavaScript returns its exact result rounded to a double; the
  rounding is a function \<open>fl\<close> on the reals. \<open>binary64 fl\<close> says what round-to-nearest
  guarantees: a double is left as it is, and in the range of the normal doubles a real is
  moved by at most \<open>2 ^ -53\<close> of its size, half a unit in the last place.
\<close>

definition representable :: "real \<Rightarrow> bool" where
  "representable x =
     (\<exists>(m::int) (a::nat) (b::nat).
        \<bar>m\<bar> < 2 ^ 53 \<and> a \<le> 971 \<and> b \<le> 1074 \<and> x = of_int m * 2 ^ a / 2 ^ b)"

definition binary64 :: "(real \<Rightarrow> real) \<Rightarrow> bool" where
  "binary64 fl =
     (\<forall>x. (representable x \<longrightarrow> fl x = x)
          \<and> (1 / 2 ^ 1022 \<le> \<bar>x\<bar> \<and> \<bar>x\<bar> \<le> 2 ^ 1023 \<longrightarrow> \<bar>fl x - x\<bar> \<le> \<bar>x\<bar> / 2 ^ 53))"

fun js_fl :: "(real \<Rightarrow> real) \<Rightarrow> jsnum \<Rightarrow> jsnum" where
  "js_fl fl (Fin x) = Fin (fl x)"
| "js_fl fl v = v"

text \<open>
  The rounding of JavaScript is \<open>fl64\<close>: to the nearest double, a tie going to the even
  significand. The exponent of a real is that of its binade, and not below that of the
  subnormal doubles; the real is scaled so that the doubles of its binade are the
  integers, rounded to an integer, and scaled back. A result beyond the largest double,
  which JavaScript turns into an infinity, does not occur in what follows and is rounded
  like any other.
\<close>

definition round_even :: "real \<Rightarrow> int" where
  "round_even y =
     (let n = \<lfloor>y\<rfloor> in
      if y - of_int n < 1 / 2 then n
      else if 1 / 2 < y - of_int n then n + 1
      else if even n then n else n + 1)"

definition exponent64 :: "real \<Rightarrow> int" where
  "exponent64 x = max \<lfloor>log 2 \<bar>x\<bar>\<rfloor> (- 1022)"

definition fl64 :: "real \<Rightarrow> real" where
  "fl64 x =
     (if x = 0 then 0
      else of_int (round_even (x * 2 powi (52 - exponent64 x))) * 2 powi (exponent64 x - 52))"

section \<open>OddsComparison: data\<close>

text \<open>
  A \<open>Map\<close> is an association list in insertion order: \<open>Map.set\<close> is
  \<^const>\<open>AList.update\<close> (an existing key keeps its place, a new key goes last),
  \<open>Map.get\<close> is \<^const>\<open>map_of\<close>, \<open>Map.delete\<close> is \<^const>\<open>AList.delete\<close>.
  \<open>Date.now()\<close> is a parameter \<open>now\<close> (milliseconds) of every function that reads it.

  The \<open>odds\<close> field of a feed outcome is kept as what the code observes of it:
  \<open>NoOdds\<close> when the field is falsy, \<open>RawOdds v\<close> when it is truthy and
  \<open>parseFloat\<close> of it is \<open>v\<close> (\<open>NaN\<close> for text that is not a number).
  The display strings (\<open>formattedOdds\<close>) are left out of the records.
\<close>

datatype raw_odds = NoOdds | RawOdds jsnum

record outcome =
  outcome_name :: string
  outcome_target :: string
  odds :: raw_odds
  link :: string

record boltData =
  sport :: string
  home_team :: string
  away_team :: string
  game :: string
  outcomes :: "(string \<times> outcome) list"
  bd_timestamp :: int

record polyData =
  price :: "jsnum option"
  pd_timestamp :: int

record oddsComparison =
  boltOddsData :: "(string \<times> boltData) list"
  polymarketData :: "(string \<times> polyData) list"
  valueThreshold :: real

record game_info =
  gi_sport :: string
  homeTeam :: string
  awayTeam :: string
  gi_game :: string
  gi_timestamp :: int

record moneylineOutcome =
  team :: string
  mo_odds :: raw_odds
  americanOdds :: jsnum
  decimalOdds :: jsnum
  impliedProbability :: jsnum
  mo_link :: string

record polymarketSide =
  pm_tokenId :: string
  pm_price :: jsnum
  pm_decimalOdds :: "jsnum option"
  pm_americanOdds :: "jsnum option"

record comparison =
  gameKey :: string
  tokenId :: string
  gameInfo :: game_info
  boltOdds :: "moneylineOutcome list"
  polymarket :: polymarketSide
  cmp_timestamp :: int

record valueAnalysis =
  va_value :: jsnum
  va_outcome :: moneylineOutcome
  polymarketOdds :: "jsnum option"
  recommendedAction :: string
  va_confidence :: string

record recommendation =
  rec_action :: string
  rec_tokenId :: string
  rec_confidence :: string
  expectedValue :: jsnum

text \<open>An opportunity is the match (the spread \<open>...match\<close>) with two more fields.\<close>

record opportunity =
  opp_match :: comparison
  opp_valueAnalysis :: valueAnalysis
  opp_recommendation :: recommendation

section \<open>OddsComparison: operations\<close>

definition createGameKey :: "boltData \<Rightarrow> string" where
  "createGameKey gameData =
     sport gameData @ ''_'' @ home_team gameData @ ''_'' @ away_team gameData @ ''_'' @ game gameData"

definition updateBoltOddsData :: "boltData \<Rightarrow> int \<Rightarrow> oddsComparison \<Rightarrow> oddsComparison" where
  "updateBoltOddsData gameData now st =
     st\<lparr>boltOddsData :=
          AList.update (createGameKey gameData) (gameData\<lparr>bd_timestamp := now\<rparr>) (boltOddsData st)\<rparr>"

definition updatePolymarketData :: "string \<Rightarrow> polyData \<Rightarrow> int \<Rightarrow> oddsComparison \<Rightarrow> oddsComparison" where
  "updatePolymarketData tid marketData now st =
     st\<lparr>polymarketData :=
          AList.update tid (marketData\<lparr>pd_timestamp := now\<rparr>) (polymarketData st)\<rparr>"

text \<open>
  The two conversions in exact arithmetic, as the matching pass below uses them. At the
  doubles the argument of \<open>Math.round\<close> differs from the exact quotient in its last digits;
  the result is the same integer unless the exact quotient is a tie (a price of \<open>0.68\<close>:
  exactly \<open>-212.5\<close>, in doubles \<open>-212.50000000000006\<close>).
\<close>

definition americanToDecimal :: "jsnum \<Rightarrow> jsnum" where
  "americanToDecimal a =
     (if js_gt a (Fin 0) then js_add (js_div a (Fin 100)) (Fin 1)
      else js_add (js_div (Fin 100) (js_abs a)) (Fin 1))"

definition decimalToAmerican :: "jsnum \<Rightarrow> jsnum" where
  "decimalToAmerican d =
     (if js_ge d (Fin 2) then js_round (js_mul (js_sub d (Fin 1)) (Fin 100))
      else js_round (js_div (Fin (- 100)) (js_sub d (Fin 1))))"

text \<open>
  The two conversions with the rounding of every operation: \<open>(a / 100) + 1\<close> is a division
  and an addition, \<open>Math.round((d - 1) * 100)\<close> a subtraction and a multiplication, then
  \<open>Math.round\<close>, which is exact on the double it is given. With the rounding \<open>fl64\<close> they
  are the functions of the source; with no rounding they are the two functions above.
\<close>

definition americanToDecimal64 :: "(real \<Rightarrow> real) \<Rightarrow> jsnum \<Rightarrow> jsnum" where
  "americanToDecimal64 fl a =
     (if js_gt a (Fin 0) then js_fl fl (js_add (js_fl fl (js_div a (Fin 100))) (Fin 1))
      else js_fl fl (js_add (js_fl fl (js_div (Fin 100) (js_abs a))) (Fin 1)))"

definition decimalToAmerican64 :: "(real \<Rightarrow> real) \<Rightarrow> jsnum \<Rightarrow> jsnum" where
  "decimalToAmerican64 fl d =
     (if js_ge d (Fin 2)
      then js_round (js_fl fl (js_mul (js_fl fl (js_sub d (Fin 1))) (Fin 100)))
      else js_round (js_fl fl (js_div (Fin (- 100)) (js_fl fl (js_sub d (Fin 1))))))"

text \<open>\<open>None\<close> is the \<open>null\<close> the source returns for a price outside \<open>(0, 1)\<close>.\<close>

definition polymarketPriceToDecimal :: "jsnum \<Rightarrow> jsnum option" where
  "polymarketPriceToDecimal p =
     (if js_le p (Fin 0) \<or> js_ge p (Fin 1) then None else Some (js_div (Fin 1) p))"

definition polymarketPriceToAmerican :: "jsnum \<Rightarrow> jsnum option" where
  "polymarketPriceToAmerican p =
     (if js_le p (Fin 0) \<or> js_ge p (Fin 1) then None
      else map_option decimalToAmerican (polymarketPriceToDecimal p))"

text \<open>The argument is a Number at the only call, so the \<open>typeof\<close> test takes its first branch.\<close>

definition calculateImpliedProbability :: "jsnum \<Rightarrow> jsnum" where
  "calculateImpliedProbability a = js_div (Fin 1) (americanToDecimal a)"

definition extractGameInfo :: "boltData \<Rightarrow> game_info" where
  "extractGameInfo bd =
     \<lparr>gi_sport = sport bd, homeTeam = home_team bd, awayTeam = away_team bd,
      gi_game = game bd, gi_timestamp = bd_timestamp bd\<rparr>"

fun moneylineOf :: "outcome \<Rightarrow> moneylineOutcome option" where
  "moneylineOf oc =
     (case odds oc of
        NoOdds \<Rightarrow> None
      | RawOdds a \<Rightarrow>
          if outcome_name oc = ''Moneyline''
          then Some \<lparr>team = outcome_target oc, mo_odds = odds oc, americanOdds = a,
                     decimalOdds = americanToDecimal a,
                     impliedProbability = calculateImpliedProbability a,
                     mo_link = link oc\<rparr>
          else None)"

fun findMoneylineLoop :: "(string \<times> outcome) list \<Rightarrow> moneylineOutcome list" where
  "findMoneylineLoop [] = []"
| "findMoneylineLoop ((k, oc) # rest) =
     (case moneylineOf oc of
        None \<Rightarrow> findMoneylineLoop rest
      | Some m \<Rightarrow> m # findMoneylineLoop rest)"

definition findMoneylineOutcomes :: "boltData \<Rightarrow> moneylineOutcome list" where
  "findMoneylineOutcomes bd = findMoneylineLoop (outcomes bd)"

text \<open>\<open>polyData.price || 0.5\<close>: an absent, null, zero or NaN price gives \<open>0.5\<close>.\<close>

definition priceOrDefault :: "jsnum option \<Rightarrow> jsnum" where
  "priceOrDefault p =
     (case p of None \<Rightarrow> Fin 0.5 | Some v \<Rightarrow> if js_truthy v then v else Fin 0.5)"

definition compareMarkets ::
  "string \<Rightarrow> boltData \<Rightarrow> string \<Rightarrow> polyData \<Rightarrow> int \<Rightarrow> comparison option" where
  "compareMarkets gk bd tid pd now =
     (if sport bd \<noteq> ''NHL'' then None
      else if findMoneylineOutcomes bd = [] then None
      else
        let polymarketPrice = priceOrDefault (price pd)
        in Some \<lparr>gameKey = gk, tokenId = tid, gameInfo = extractGameInfo bd,
                  boltOdds = findMoneylineOutcomes bd,
                  polymarket =
                    \<lparr>pm_tokenId = tid, pm_price = polymarketPrice,
                     pm_decimalOdds = polymarketPriceToDecimal polymarketPrice,
                     pm_americanOdds = polymarketPriceToAmerican polymarketPrice\<rparr>,
                  cmp_timestamp = now\<rparr>)"

text \<open>The nested loops of \<open>findMatchingMarkets\<close>: games outside, tokens inside.\<close>

fun matchTokens :: "string \<Rightarrow> boltData \<Rightarrow> (string \<times> polyData) list \<Rightarrow> int \<Rightarrow> comparison list" where
  "matchTokens gk bd [] now = []"
| "matchTokens gk bd ((tid, pd) # rest) now =
     (case compareMarkets gk bd tid pd now of
        None \<Rightarrow> matchTokens gk bd rest now
      | Some m \<Rightarrow> m # matchTokens gk bd rest now)"

fun matchGames :: "(string \<times> boltData) list \<Rightarrow> (string \<times> polyData) list \<Rightarrow> int \<Rightarrow> comparison list" where
  "matchGames [] pds now = []"
| "matchGames ((gk, bd) # rest) pds now = matchTokens gk bd pds now @ matchGames rest pds now"

definition findMatchingMarkets :: "oddsComparison \<Rightarrow> int \<Rightarrow> comparison list" where
  "findMatchingMarkets st now = matchGames (boltOddsData st) (polymarketData st) now"

text \<open>
  \<open>null\<close> used as a number is \<open>+0\<close>; \<open>!x\<close> holds of \<open>null\<close>, of \<open>0\<close> and of \<open>NaN\<close>.
\<close>

fun toNumber :: "jsnum option \<Rightarrow> jsnum" where
  "toNumber None = Fin 0"
| "toNumber (Some v) = v"

fun falsy :: "jsnum option \<Rightarrow> bool" where
  "falsy None = True"
| "falsy (Some v) = (\<not> js_truthy v)"

text \<open>The value of one outcome: \<open>outcome.impliedProbability - (1 / polymarket.decimalOdds)\<close>.\<close>

definition edge :: "polymarketSide \<Rightarrow> moneylineOutcome \<Rightarrow> jsnum" where
  "edge pm oc = js_sub (impliedProbability oc) (js_div (Fin 1) (toNumber (pm_decimalOdds pm)))"

text \<open>
  The loop of \<open>calculateValue\<close>, with \<open>bestValue\<close> and \<open>bestOutcome\<close> as the accumulator
  (\<open>None\<close> is \<open>null\<close>).
\<close>

fun valueLoop ::
  "real \<Rightarrow> polymarketSide \<Rightarrow> moneylineOutcome list \<Rightarrow>
   jsnum option \<times> moneylineOutcome option \<Rightarrow> jsnum option \<times> moneylineOutcome option" where
  "valueLoop thr pm [] best = best"
| "valueLoop thr pm (oc # rest) (bestValue, bestOutcome) =
     (let v = edge pm oc in
      if js_gt v (Fin thr) then
        (if falsy bestValue \<or> js_gt v (toNumber bestValue)
         then valueLoop thr pm rest (Some v, Some oc)
         else valueLoop thr pm rest (bestValue, bestOutcome))
      else valueLoop thr pm rest (bestValue, bestOutcome))"

definition calculateConfidence :: "jsnum \<Rightarrow> string" where
  "calculateConfidence v =
     (if js_gt v (Fin 0.15) then ''high'' else if js_gt v (Fin 0.1) then ''medium'' else ''low'')"

definition calculateValue :: "real \<Rightarrow> comparison \<Rightarrow> valueAnalysis option" where
  "calculateValue thr c =
     (if boltOdds c = [] \<or> falsy (pm_decimalOdds (polymarket c)) then None
      else
        (case valueLoop thr (polymarket c) (boltOdds c) (None, None) of
           (Some bestValue, Some bestOutcome) \<Rightarrow>
             if js_truthy bestValue
             then Some \<lparr>va_value = bestValue, va_outcome = bestOutcome,
                        polymarketOdds = pm_decimalOdds (polymarket c),
                        recommendedAction = ''buy'',
                        va_confidence = calculateConfidence bestValue\<rparr>
             else None
         | _ \<Rightarrow> None))"

text \<open>
  \<open>Array.prototype.sort\<close> is stable, and a comparator result of \<open>NaN\<close> counts as \<open>0\<close>;
  for a consistent comparator the result is the stably sorted array, which this insertion
  sort computes: \<open>x\<close> moves behind \<open>y\<close> only when \<open>cmp x y > 0\<close>.
\<close>

fun js_insert :: "('a \<Rightarrow> 'a \<Rightarrow> jsnum) \<Rightarrow> 'a \<Rightarrow> 'a list \<Rightarrow> 'a list" where
  "js_insert cmp x [] = [x]"
| "js_insert cmp x (y # ys) =
     (if js_gt (cmp x y) (Fin 0) then y # js_insert cmp x ys else x # y # ys)"

definition js_sort :: "('a \<Rightarrow> 'a \<Rightarrow> jsnum) \<Rightarrow> 'a list \<Rightarrow> 'a list" where
  "js_sort cmp xs = foldr (js_insert cmp) xs []"

definition mkOpportunity :: "comparison \<Rightarrow> valueAnalysis \<Rightarrow> opportunity" where
  "mkOpportunity m v =
     \<lparr>opp_match = m, opp_valueAnalysis = v,
      opp_recommendation =
        \<lparr>rec_action = recommendedAction v, rec_tokenId = tokenId m,
         rec_confidence = va_confidence v, expectedValue = va_value v\<rparr>\<rparr>"

fun opportunityLoop :: "real \<Rightarrow> comparison list \<Rightarrow> opportunity list" where
  "opportunityLoop thr [] = []"
| "opportunityLoop thr (m # rest) =
     (case calculateValue thr m of
        None \<Rightarrow> opportunityLoop thr rest
      | Some v \<Rightarrow> mkOpportunity m v # opportunityLoop thr rest)"

text \<open>The comparator of the final sort: \<open>(a, b) => b.valueAnalysis.value - a.valueAnalysis.value\<close>.\<close>

definition byValueDesc :: "opportunity \<Rightarrow> opportunity \<Rightarrow> jsnum" where
  "byValueDesc a b = js_sub (va_value (opp_valueAnalysis b)) (va_value (opp_valueAnalysis a))"

definition findTradingOpportunities :: "oddsComparison \<Rightarrow> int \<Rightarrow> opportunity list" where
  "findTradingOpportunities st now =
     js_sort byValueDesc (opportunityLoop (valueThreshold st) (findMatchingMarkets st now))"

section \<open>TradingBot: the position ledger\<close>

text \<open>
  The calls to the order interface are the environment's answers, passed in: what
  \<open>getOrderbook\<close> returned or threw, and what \<open>buyContract\<close> or \<open>sellContract\<close> returned or
  threw; \<open>now\<close> is the value of \<open>Date.now()\<close> when the call writes.

  \<open>evaluateOpportunity\<close> and \<open>sellPosition\<close> are asynchronous. Each reads the bot before
  its first \<open>await\<close> and writes it after its last one, in one synchronous block. The
  functions \<open>evaluateOpportunity\<close> and \<open>sellPosition\<close> below are one such call with nothing
  else running between its reading and its writing; \<open>checkTradingOpportunities\<close> is the
  pass of the source, which starts every call before any of them writes.
\<close>

datatype error = Error string

record orderResult =
  order_id :: string

record bookLevel =
  level_price :: real

record orderbook =
  asks :: "bookLevel list option"
  bids :: "bookLevel list option"

record position =
  pos_tokenId :: string
  pos_gameKey :: string
  pos_gameInfo :: game_info
  orderId :: string
  amount :: real
  pos_price :: real
  buyTime :: int
  pos_valueAnalysis :: valueAnalysis
  status :: string
  sellPrice :: "real option"
  sellTime :: "int option"

text \<open>
  A buy entry is a copy of the position with the order's result; a sell entry holds the
  token, the amount sold, the price, the time and the order's result.
\<close>

datatype historyEntry =
  BuyEntry position orderResult
| SellEntry string real real int orderResult

fun action :: "historyEntry \<Rightarrow> string" where
  "action (BuyEntry p r) = ''buy''"
| "action (SellEntry t a pr tm r) = ''sell''"

record tradingBot =
  activePositions :: "(string \<times> position) list"
  tradingHistory :: "historyEntry list"
  maxPositionSize :: real
  autoSellEnabled :: bool
  autoSellThreshold :: real

text \<open>\<open>book?.[0]\<close>: the first level, if the side is there and not empty.\<close>

fun firstLevel :: "bookLevel list option \<Rightarrow> bookLevel option" where
  "firstLevel None = None"
| "firstLevel (Some []) = None"
| "firstLevel (Some (l # ls)) = Some l"

definition getTotalPositionValue :: "tradingBot \<Rightarrow> real" where
  "getTotalPositionValue st = foldl (\<lambda>total kp. total + amount (snd kp)) 0 (activePositions st)"

text \<open>
  \<open>createGameKey\<close> applied to a \<open>gameInfo\<close>, which has no \<open>home_team\<close> and no
  \<open>away_team\<close> field: the template prints \<open>undefined\<close> for both.
\<close>

definition createGameKeyOfInfo :: "game_info \<Rightarrow> string" where
  "createGameKeyOfInfo gi = gi_sport gi @ ''_undefined_undefined_'' @ gi_game gi"

definition executeBuyOrder ::
  "tradingBot \<Rightarrow> opportunity \<Rightarrow> error + orderbook \<Rightarrow> error + orderResult \<Rightarrow> int \<Rightarrow> tradingBot" where
  "executeBuyOrder st opp book placed now =
     (let tid = rec_tokenId (opp_recommendation opp);
          positionSize = min (maxPositionSize st * 0.1) 50
      in case book of
           Inl e \<Rightarrow> st
         | Inr ob \<Rightarrow>
             (case firstLevel (asks ob) of
                None \<Rightarrow> st
              | Some bestAsk \<Rightarrow>
                  (case placed of
                     Inl e \<Rightarrow> st
                   | Inr res \<Rightarrow>
                       let pos = \<lparr>pos_tokenId = tid,
                                  pos_gameKey = createGameKeyOfInfo (gameInfo (opp_match opp)),
                                  pos_gameInfo = gameInfo (opp_match opp),
                                  orderId = order_id res,
                                  amount = positionSize,
                                  pos_price = level_price bestAsk,
                                  buyTime = now,
                                  pos_valueAnalysis = opp_valueAnalysis opp,
                                  status = ''open'',
                                  sellPrice = None,
                                  sellTime = None\<rparr>
                       in st\<lparr>activePositions := AList.update tid pos (activePositions st),
                             tradingHistory := tradingHistory st @ [BuyEntry pos res]\<rparr>)))"

definition evaluateOpportunity ::
  "tradingBot \<Rightarrow> opportunity \<Rightarrow> error + orderbook \<Rightarrow> error + orderResult \<Rightarrow> int \<Rightarrow> tradingBot" where
  "evaluateOpportunity st opp book placed now =
     (if map_of (activePositions st) (rec_tokenId (opp_recommendation opp)) \<noteq> None then st
      else if maxPositionSize st \<le> getTotalPositionValue st then st
      else if va_confidence (opp_valueAnalysis opp) = ''high''
              \<or> va_confidence (opp_valueAnalysis opp) = ''medium''
           then executeBuyOrder st opp book placed now
      else st)"

text \<open>
  The tests of \<open>evaluateOpportunity\<close>, all made before its first \<open>await\<close>: the token is not
  held, the total is below the cap, the confidence is high or medium.
\<close>

definition startsBuy :: "tradingBot \<Rightarrow> opportunity \<Rightarrow> bool" where
  "startsBuy st opp =
     (map_of (activePositions st) (rec_tokenId (opp_recommendation opp)) = None
      \<and> getTotalPositionValue st < maxPositionSize st
      \<and> (va_confidence (opp_valueAnalysis opp) = ''high''
           \<or> va_confidence (opp_valueAnalysis opp) = ''medium''))"

text \<open>
  \<open>checkTradingOpportunities\<close> loops over the opportunities and calls \<open>evaluateOpportunity\<close>
  for each without waiting for it. Every call therefore makes its tests on the bot as the
  pass found it and stops at \<open>await getOrderbook\<close>; the calls that passed the tests go on
  when the answers arrive, and each then records its position and its history entry in
  one block. A call is given with the answers it will get; the writes are taken in the
  order of the calls.
\<close>

type_synonym buyCall = "opportunity \<times> (error + orderbook) \<times> (error + orderResult) \<times> int"

definition completeBuy :: "tradingBot \<Rightarrow> buyCall \<Rightarrow> tradingBot" where
  "completeBuy st call =
     (case call of (opp, book, placed, now) \<Rightarrow> executeBuyOrder st opp book placed now)"

definition checkTradingOpportunities :: "tradingBot \<Rightarrow> buyCall list \<Rightarrow> tradingBot" where
  "checkTradingOpportunities st calls =
     foldl completeBuy st (filter (\<lambda>call. startsBuy st (fst call)) calls)"

text \<open>\<open>amount || position.amount\<close>: an amount that is absent, null or \<open>0\<close> means the whole position.\<close>

definition sellAmountOf :: "real option \<Rightarrow> position \<Rightarrow> real" where
  "sellAmountOf amt pos =
     (case amt of None \<Rightarrow> amount pos | Some a \<Rightarrow> if a \<noteq> 0 then a else amount pos)"

text \<open>The position object after the update of \<open>sellPosition\<close>; its amount is the logged \<open>remainingAmount\<close>.\<close>

definition soldPosition :: "position \<Rightarrow> real \<Rightarrow> real \<Rightarrow> int \<Rightarrow> position" where
  "soldPosition pos sellAmount bidPrice now =
     (let pos' = pos\<lparr>amount := amount pos - sellAmount, sellPrice := Some bidPrice,
                     sellTime := Some now\<rparr>
      in if amount pos' \<le> 0 then pos'\<lparr>status := ''closed''\<rparr> else pos')"

definition sellPosition ::
  "tradingBot \<Rightarrow> string \<Rightarrow> real option \<Rightarrow> error + orderbook \<Rightarrow> error + orderResult \<Rightarrow> int \<Rightarrow>
   (error + orderResult) \<times> tradingBot" where
  "sellPosition st tid amt book placed now =
     (case map_of (activePositions st) tid of
        None \<Rightarrow> (Inl (Error (''No active position found for token '' @ tid)), st)
      | Some pos \<Rightarrow>
          let sellAmount = sellAmountOf amt pos
          in case book of
               Inl e \<Rightarrow> (Inl e, st)
             | Inr ob \<Rightarrow>
                 (case firstLevel (bids ob) of
                    None \<Rightarrow> (Inl (Error ''No bids available for sell order''), st)
                  | Some bestBid \<Rightarrow>
                      (case placed of
                         Inl e \<Rightarrow> (Inl e, st)
                       | Inr res \<Rightarrow>
                           let pos' = soldPosition pos sellAmount (level_price bestBid) now
                           in (Inr res,
                               st\<lparr>activePositions :=
                                     (if amount pos' \<le> 0 then AList.delete tid (activePositions st)
                                      else AList.update tid pos' (activePositions st)),
                                   tradingHistory :=
                                     tradingHistory st @
                                       [SellEntry tid sellAmount (level_price bestBid) now res]\<rparr>))))"

definition hoursHeld :: "position \<Rightarrow> int \<Rightarrow> real" where
  "hoursHeld pos now = real_of_int (now - buyTime pos) / (1000 * 60 * 60)"

text \<open>
  The sweep calls \<open>sellPosition(tokenId)\<close>, without an amount and without waiting for it,
  for each position it selects; the result is the list of these tokens in the order of the
  calls.
\<close>

fun autoSellLoop :: "(string \<times> position) list \<Rightarrow> int \<Rightarrow> string list" where
  "autoSellLoop [] now = []"
| "autoSellLoop ((tid, pos) # rest) now =
     (if 2 < hoursHeld pos now then tid # autoSellLoop rest now else autoSellLoop rest now)"

definition checkAutoSellConditions :: "tradingBot \<Rightarrow> int \<Rightarrow> string list" where
  "checkAutoSellConditions st now = autoSellLoop (activePositions st) now"

text \<open>The constructor's ledger: no position, no history.\<close>

definition newTradingBot :: "real \<Rightarrow> bool \<Rightarrow> real \<Rightarrow> tradingBot" where
  "newTradingBot maxSize autoSell threshold =
     \<lparr>activePositions = [], tradingHistory = [], maxPositionSize = maxSize,
      autoSellEnabled = autoSell, autoSellThreshold = threshold\<rparr>"

section \<open>BoltOddsClient: reconnection\<close>

text \<open>
  The fields of the client that the reconnection logic reads and writes. A call of
  \<open>handleReconnection\<close> returns the delay of the \<open>setTimeout\<close> it sets, if it sets one.
\<close>

record boltOddsClient =
  isConnected :: bool
  reconnectAttempts :: nat
  maxReconnectAttempts :: nat
  reconnectDelay :: nat

definition newBoltOddsClient :: boltOddsClient where
  "newBoltOddsClient =
     \<lparr>isConnected = False, reconnectAttempts = 0, maxReconnectAttempts = 10,
      reconnectDelay = 5000\<rparr>"

definition handleReconnection :: "boltOddsClient \<Rightarrow> nat option \<times> boltOddsClient" where
  "handleReconnection c =
     (if maxReconnectAttempts c \<le> reconnectAttempts c then (None, c)
      else
        let c' = c\<lparr>reconnectAttempts := reconnectAttempts c + 1\<rparr>
        in (Some (reconnectDelay c' * 2 ^ (reconnectAttempts c' - 1)), c'))"

text \<open>The handlers of the socket's \<open>open\<close>, \<open>error\<close> and \<open>close\<close> events.\<close>

definition onOpen :: "boltOddsClient \<Rightarrow> boltOddsClient" where
  "onOpen c = c\<lparr>isConnected := True, reconnectAttempts := 0\<rparr>"

definition onError :: "boltOddsClient \<Rightarrow> boltOddsClient" where
  "onError c = c\<lparr>isConnected := False\<rparr>"

definition onClose :: "boltOddsClient \<Rightarrow> nat option \<times> boltOddsClient" where
  "onClose c = handleReconnection (c\<lparr>isConnected := False\<rparr>)"

text \<open>
  \<open>n\<close> connection failures in a row, each one a \<open>close\<close> event with no \<open>open\<close> before it:
  the scheduled delays, in order (\<open>None\<close> where nothing was scheduled), and the client after.
\<close>

fun failures :: "nat \<Rightarrow> boltOddsClient \<Rightarrow> nat option list \<times> boltOddsClient" where
  "failures 0 c = ([], c)"
| "failures (Suc n) c =
     (let (d, c') = onClose c; (ds, c'') = failures n c' in (d # ds, c''))"

text \<open>
  The invariant of the ledger: the keys of the active set are distinct, and every position is
  filed under its own token, is open and has a positive amount.
\<close>

definition ledgerInv :: "tradingBot \<Rightarrow> bool" where
  "ledgerInv st =
     (distinct (map fst (activePositions st))
      \<and> (\<forall>kp\<in>set (activePositions st).
            pos_tokenId (snd kp) = fst kp \<and> status (snd kp) = ''open'' \<and> 0 < amount (snd kp)))"

section \<open>Notions for the ranking\<close>

text \<open>
  None of the functions from \<open>findMatchingMarkets\<close> to \<open>findTradingOpportunities\<close> assigns
  to a field or calls \<open>set\<close> or \<open>delete\<close> on a store: each is a function of the stores and
  of the time that returns only its result. The time of the call reaches the result in
  one place, the \<open>timestamp\<close> of each match; \<open>atTime\<close> replaces it.
\<close>

definition atTime :: "int \<Rightarrow> opportunity \<Rightarrow> opportunity" where
  "atTime t opp = opp\<lparr>opp_match := (opp_match opp)\<lparr>cmp_timestamp := t\<rparr>\<rparr>"

abbreviation stamp :: "int \<Rightarrow> comparison \<Rightarrow> comparison" where
  "stamp t c \<equiv> c\<lparr>cmp_timestamp := t\<rparr>"

text \<open>
  An opportunity whose value is a finite number, and a match with no infinite probability
  and no infinite odds: the matching pass builds only such matches, and on finite values
  the comparator of the final sort is consistent.
\<close>

definition finiteValue :: "opportunity \<Rightarrow> bool" where
  "finiteValue opp = (case va_value (opp_valueAnalysis opp) of Fin r \<Rightarrow> True | _ \<Rightarrow> False)"

definition finiteMatch :: "comparison \<Rightarrow> bool" where
  "finiteMatch c =
     ((\<forall>oc\<in>set (boltOdds c). impliedProbability oc \<noteq> PInf \<and> impliedProbability oc \<noteq> NInf)
      \<and> (case pm_decimalOdds (polymarket c) of None \<Rightarrow> True | Some d \<Rightarrow> d \<noteq> PInf \<and> d \<noteq> NInf))"

abbreviation valueDesc :: "opportunity \<Rightarrow> opportunity \<Rightarrow> bool" where
  "valueDesc a b \<equiv> js_ge (va_value (opp_valueAnalysis a)) (va_value (opp_valueAnalysis b))"

section \<open>Example data\<close>

text \<open>
  The mock game of the repository's test script, one token priced at \<open>0.30\<close>, an order book
  and an order result; the ledger after the one opportunity they give has been bought.
\<close>

definition mockBoltData :: boltData where
  "mockBoltData =
     \<lparr>sport = ''NHL'', home_team = ''Toronto Maple Leafs'', away_team = ''Montreal Canadiens'',
      game = ''Toronto Maple Leafs vs Montreal Canadiens, 2024-01-15, 01'',
      outcomes =
        [(''Toronto Maple Leafs Moneyline'',
          \<lparr>outcome_name = ''Moneyline'', outcome_target = ''Toronto Maple Leafs'',
           odds = RawOdds (Fin 150), link = ''https://example.com''\<rparr>),
         (''Montreal Canadiens Moneyline'',
          \<lparr>outcome_name = ''Moneyline'', outcome_target = ''Montreal Canadiens'',
           odds = RawOdds (Fin (- 120)), link = ''https://example.com''\<rparr>)],
      bd_timestamp = 0\<rparr>"

definition mockStore :: oddsComparison where
  "mockStore =
     updatePolymarketData ''token-1'' \<lparr>price = Some (Fin 0.3), pd_timestamp = 0\<rparr> 1000
       (updateBoltOddsData mockBoltData 1000
          \<lparr>boltOddsData = [], polymarketData = [], valueThreshold = 0.05\<rparr>)"

definition mockBook :: orderbook where
  "mockBook = \<lparr>asks = Some [\<lparr>level_price = 0.31\<rparr>], bids = Some [\<lparr>level_price = 0.29\<rparr>]\<rparr>"

definition mockOrder :: orderResult where
  "mockOrder = \<lparr>order_id = ''order-1''\<rparr>"

definition mockGameInfo :: game_info where
  "mockGameInfo =
     \<lparr>gi_sport = ''NHL'', homeTeam = ''Toronto Maple Leafs'', awayTeam = ''Montreal Canadiens'',
      gi_game = ''Toronto Maple Leafs vs Montreal Canadiens, 2024-01-15, 01'',
      gi_timestamp = 1000\<rparr>"

definition mockOutcomeTOR :: moneylineOutcome where
  "mockOutcomeTOR =
     \<lparr>team = ''Toronto Maple Leafs'', mo_odds = RawOdds (Fin 150), americanOdds = Fin 150,
      decimalOdds = Fin (5 / 2), impliedProbability = Fin (2 / 5),
      mo_link = ''https://example.com''\<rparr>"

definition mockOutcomeMTL :: moneylineOutcome where
  "mockOutcomeMTL =
     \<lparr>team = ''Montreal Canadiens'', mo_odds = RawOdds (Fin (- 120)), americanOdds = Fin (- 120),
      decimalOdds = Fin (11 / 6), impliedProbability = Fin (6 / 11),
      mo_link = ''https://example.com''\<rparr>"

definition mockMatch :: comparison where
  "mockMatch =
     \<lparr>gameKey = ''NHL_Toronto Maple Leafs_Montreal Canadiens_Toronto Maple Leafs vs Montreal Canadiens, 2024-01-15, 01'',
      tokenId = ''token-1'', gameInfo = mockGameInfo,
      boltOdds = [mockOutcomeTOR, mockOutcomeMTL],
      polymarket =
        \<lparr>pm_tokenId = ''token-1'', pm_price = Fin (3 / 10),
         pm_decimalOdds = Some (Fin (10 / 3)), pm_americanOdds = Some (Fin 233)\<rparr>,
      cmp_timestamp = 2000\<rparr>"

definition mockValueAnalysis :: valueAnalysis where
  "mockValueAnalysis =
     \<lparr>va_value = Fin (27 / 110), va_outcome = mockOutcomeMTL,
      polymarketOdds = Some (Fin (10 / 3)), recommendedAction = ''buy'',
      va_confidence = ''high''\<rparr>"

definition mockOpportunity :: opportunity where
  "mockOpportunity = mkOpportunity mockMatch mockValueAnalysis"

definition mockLedger :: tradingBot where
  "mockLedger =
     evaluateOpportunity (newTradingBot 100 False 0.1) mockOpportunity
       (Inr mockBook) (Inr mockOrder) 3000"

definition mockPosition :: position where
  "mockPosition =
     \<lparr>pos_tokenId = ''token-1'',
      pos_gameKey = ''NHL_undefined_undefined_Toronto Maple Leafs vs Montreal Canadiens, 2024-01-15, 01'',
      pos_gameInfo = mockGameInfo,
      orderId = ''order-1'', amount = 10, pos_price = 0.31, buyTime = 3000,
      pos_valueAnalysis = mockValueAnalysis,
      status = ''open'', sellPrice = None, sellTime = None\<rparr>"

text \<open>A match with two outcomes tied at the best edge, between a lower one and a lowest one.\<close>

definition tieOutcome :: "string \<Rightarrow> real \<Rightarrow> moneylineOutcome" where
  "tieOutcome name p =
     \<lparr>team = name, mo_odds = RawOdds (Fin (- 100)), americanOdds = Fin (- 100),
      decimalOdds = Fin (1 / p), impliedProbability = Fin p, mo_link = ''''\<rparr>"

definition tieMatch :: comparison where
  "tieMatch =
     mockMatch\<lparr>boltOdds := [tieOutcome ''A'' (3 / 5), tieOutcome ''B'' (7 / 10),
                            tieOutcome ''C'' (7 / 10), tieOutcome ''D'' (1 / 2)],
               polymarket :=
                 \<lparr>pm_tokenId = ''token-1'', pm_price = Fin (1 / 2),
                  pm_decimalOdds = Some (Fin 2), pm_americanOdds = Some (Fin 100)\<rparr>\<rparr>"

text \<open>A second game and a second token, stored after the first.\<close>

definition mockBoltData2 :: boltData where
  "mockBoltData2 =
     \<lparr>sport = ''NHL'', home_team = ''Boston Bruins'', away_team = ''New York Rangers'',
      game = ''Boston Bruins vs New York Rangers, 2024-01-15, 02'',
      outcomes =
        [(''Boston Bruins Moneyline'',
          \<lparr>outcome_name = ''Moneyline'', outcome_target = ''Boston Bruins'',
           odds = RawOdds (Fin (- 300)), link = ''https://example.com''\<rparr>),
         (''Boston Bruins Spread'',
          \<lparr>outcome_name = ''Spread'', outcome_target = ''Boston Bruins'',
           odds = RawOdds (Fin (- 110)), link = ''https://example.com''\<rparr>),
         (''New York Rangers Moneyline'',
          \<lparr>outcome_name = ''Moneyline'', outcome_target = ''New York Rangers'',
           odds = RawOdds (Fin 250), link = ''https://example.com''\<rparr>)],
      bd_timestamp = 0\<rparr>"

definition mockStore2 :: oddsComparison where
  "mockStore2 =
     updatePolymarketData ''token-2'' \<lparr>price = Some (Fin 0.45), pd_timestamp = 0\<rparr> 1500
       (updateBoltOddsData mockBoltData2 1500 mockStore)"

text \<open>
  One pass over the opportunities of the two games and two tokens, from the empty ledger;
  every order book has an ask and every order is placed.
\<close>

definition mockCalls :: "buyCall list" where
  "mockCalls =
     map (\<lambda>opp. (opp, Inr mockBook, Inr mockOrder, 3000)) (findTradingOpportunities mockStore2 2000)"

definition mockPass :: tradingBot where
  "mockPass = checkTradingOpportunities (newTradingBot 100 False 0.1) mockCalls"

section \<open>Odds conversion\<close>

text \<open>With no rounding the conversions are the exact ones, and no rounding is a \<open>binary64\<close>.\<close>

lemma js_fl_id: "js_fl (\<lambda>x. x) v = v"
  by (cases v) simp_all

lemma americanToDecimal64_exact: "americanToDecimal64 (\<lambda>x. x) a = americanToDecimal a"
  by (simp add: americanToDecimal64_def americanToDecimal_def js_fl_id)

lemma decimalToAmerican64_exact: "decimalToAmerican64 (\<lambda>x. x) d = decimalToAmerican d"
  by (simp add: decimalToAmerican64_def decimalToAmerican_def js_fl_id)

lemma binary64_exact: "binary64 (\<lambda>x. x)"
  by (simp add: binary64_def)

lemma representable_int:
  "\<bar>m\<bar> < 2 ^ 53 \<Longrightarrow> representable (of_int m)"
  unfolding representable_def
  by (rule exI[of _ m], rule exI[of _ 0], rule exI[of _ 0]) simp

lemma representable_halves:
  "\<bar>m\<bar> < 2 ^ 53 \<Longrightarrow> representable (of_int m / 2)"
  unfolding representable_def
  by (rule exI[of _ m], rule exI[of _ 0], rule exI[of _ 1]) simp

lemma fl_representable: "binary64 fl \<Longrightarrow> representable x \<Longrightarrow> fl x = x"
  by (simp add: binary64_def)

lemma fl_values:
  assumes "binary64 fl"
  shows "fl 1 = 1" "fl 2 = 2" "fl 100 = 100" "fl 150 = 150" "fl (3 / 2) = 3 / 2" "fl (5 / 2) = 5 / 2"
proof -
  have r: "representable 1" "representable 2" "representable 100" "representable 150"
    using representable_int[of 1] representable_int[of 2] representable_int[of 100]
      representable_int[of 150] by simp_all
  have h: "representable (3 / 2)" "representable (5 / 2)"
    using representable_halves[of 3] representable_halves[of 5] by simp_all
  show "fl 1 = 1" "fl 2 = 2" "fl 100 = 100" "fl 150 = 150" "fl (3 / 2) = 3 / 2" "fl (5 / 2) = 5 / 2"
    using assms r h by (simp_all add: fl_representable)
qed

lemma fl_close:
  assumes "binary64 fl" "1 / 8 \<le> \<bar>x\<bar>" "\<bar>x\<bar> \<le> 512"
  shows "\<bar>fl x - x\<bar> \<le> 1 / 10 ^ 12"
proof -
  have lo: "(1::real) / 2 ^ 1022 \<le> 1 / 8"
    by (rule divide_left_mono) (simp_all add: power_increasing[of 3 1022 "2::real", simplified])
  have hi: "(512::real) \<le> 2 ^ 1023"
    using power_increasing[of 9 1023 "2::real"] by simp
  have "\<bar>fl x - x\<bar> \<le> \<bar>x\<bar> / 2 ^ 53"
    using assms lo hi unfolding binary64_def by (meson order_trans)
  also have "\<dots> \<le> 512 / 2 ^ 53" using assms(3) by (simp add: divide_right_mono)
  also have "\<dots> \<le> 1 / 10 ^ 12" by simp
  finally show ?thesis .
qed

text \<open>
  A negative American value \<open>-n\<close> with \<open>110 \<le> n \<le> 400\<close>: the four rounded operations
  \<open>100 / n\<close>, \<open>+ 1\<close>, \<open>- 1\<close>, \<open>-100 / _\<close> end within \<open>10 ^ -6\<close> of \<open>-n\<close>, and the decimal odds
  are below 2, so the second branch of \<open>decimalToAmerican\<close> is taken.
\<close>

lemma negative_round_trip_real:
  fixes n :: real
  assumes fl: "binary64 fl" and n: "110 \<le> n" "n \<le> 400"
  defines "q \<equiv> fl (100 / n)"
  defines "s \<equiv> fl (q + 1)"
  defines "t \<equiv> fl (s - 1)"
  defines "u \<equiv> fl (- 100 / t)"
  shows "s < 2" and "0 < t" and "\<bar>u + n\<bar> \<le> 1 / 10 ^ 6"
proof -
  let ?c = "100 / n"
  let ?e = "1 / 10 ^ 12 :: real"
  have e: "?e = 1 / 1000000000000" by simp
  have npos: "0 < n" using n by simp
  have c_lo: "1 / 4 \<le> ?c" using n npos by (simp add: field_simps)
  have c_hi: "?c \<le> 10 / 11" using n npos by (simp add: field_simps)
  have "1 / 8 \<le> \<bar>?c\<bar>" "\<bar>?c\<bar> \<le> 512" using c_lo c_hi by linarith+
  then have q: "\<bar>q - ?c\<bar> \<le> ?e"
    unfolding q_def by (rule fl_close[OF fl])
  have "1 / 8 \<le> \<bar>q + 1\<bar>" "\<bar>q + 1\<bar> \<le> 512" using q c_lo c_hi unfolding e by linarith+
  then have s: "\<bar>s - (q + 1)\<bar> \<le> ?e"
    unfolding s_def by (rule fl_close[OF fl])
  show s2: "s < 2" using s q c_hi unfolding e by linarith
  have "1 / 8 \<le> \<bar>s - 1\<bar>" "\<bar>s - 1\<bar> \<le> 512" using s q c_lo c_hi unfolding e by linarith+
  then have t: "\<bar>t - (s - 1)\<bar> \<le> ?e"
    unfolding t_def by (rule fl_close[OF fl])
  have tc: "\<bar>t - ?c\<bar> \<le> 3 * ?e" using t s q unfolding e by linarith
  have t_lo: "6 / 25 \<le> t" using tc c_lo unfolding e by linarith
  have t_hi: "t \<le> 1" using tc c_hi unfolding e by linarith
  show tpos: "0 < t" using t_lo by simp
  have eq: "- 100 / t + n = n * (t - ?c) / t"
    using tpos npos by (simp add: field_simps)
  have "\<bar>n * (t - ?c) / t\<bar> = n * \<bar>t - ?c\<bar> / t"
    using tpos npos by (simp add: abs_mult)
  also have "\<dots> \<le> 400 * (3 * ?e) / (6 / 25)"
    using tc t_lo n npos by (intro frac_le mult_mono) simp_all
  finally have w: "\<bar>- 100 / t + n\<bar> \<le> 400 * (3 * ?e) / (6 / 25)" unfolding eq .
  have w_hi: "\<bar>- 100 / t\<bar> \<le> 512"
  proof -
    have "100 / t \<le> 100 / (6 / 25)" using t_lo by (intro divide_left_mono) simp_all
    then have "100 / t \<le> 512" by simp
    moreover have "\<bar>- 100 / t\<bar> = 100 / t" using tpos by simp
    ultimately show ?thesis by simp
  qed
  have w_lo: "1 / 8 \<le> \<bar>- 100 / t\<bar>"
  proof -
    have "100 / 1 \<le> 100 / t" using t_hi tpos by (intro divide_left_mono) simp_all
    then have "1 / 8 \<le> 100 / t" by simp
    moreover have "\<bar>- 100 / t\<bar> = 100 / t" using tpos by simp
    ultimately show ?thesis by simp
  qed
  define w where "w = - 100 / t"
  have u: "\<bar>u - w\<bar> \<le> 1 / 1000000000000"
    unfolding u_def w_def using fl_close[OF fl w_lo w_hi] by simp
  have w': "\<bar>w + n\<bar> \<le> 1 / 2000000" using w unfolding w_def by simp
  have "\<bar>u + n\<bar> \<le> 1 / 1000000" using u w' by linarith
  then show "\<bar>u + n\<bar> \<le> 1 / 10 ^ 6" by simp
qed

lemma round_near_int:
  fixes u :: real and k :: int
  assumes "\<bar>u - of_int k\<bar> \<le> 1 / 10 ^ 6"
  shows "\<lfloor>u + 1 / 2\<rfloor> = k"
proof -
  have "\<bar>u - of_int k\<bar> \<le> 1 / 4" using assms by simp
  then show ?thesis by (intro floor_unique) linarith+
qed

lemma negative_round_trip:
  assumes fl: "binary64 fl" and k: "110 \<le> k" "k \<le> 400"
  shows "decimalToAmerican64 fl (americanToDecimal64 fl (Fin (- of_int k))) = Fin (- of_int k)"
proof -
  let ?n = "of_int k :: real"
  have n: "110 \<le> ?n" "?n \<le> 400" using k by simp_all
  note r = negative_round_trip_real[OF fl n]
  have a: "americanToDecimal64 fl (Fin (- ?n)) = Fin (fl (fl (100 / ?n) + 1))"
    using n by (simp add: americanToDecimal64_def)
  have "\<bar>fl (- 100 / fl (fl (fl (100 / ?n) + 1) - 1)) - of_int (- k)\<bar> \<le> 1 / 10 ^ 6"
    using r(3) by simp
  then have b: "\<lfloor>fl (- 100 / fl (fl (fl (100 / ?n) + 1) - 1)) + 1 / 2\<rfloor> = - k"
    by (rule round_near_int)
  have t0: "fl (fl (fl (100 / ?n) + 1) - 1) \<noteq> 0" using r(2) by simp
  show ?thesis
    unfolding a using r(1) b t0
    by (simp add: decimalToAmerican64_def js_sub_def)
qed

text \<open>
  \<open>fl64\<close> is a \<open>binary64\<close>: a double scales to an integer, which the rounding leaves alone,
  and the rounding moves the scaled real by at most a half.
\<close>

lemma round_even_int: "round_even (of_int n) = n"
  by (simp add: round_even_def)

lemma round_even_close: "\<bar>of_int (round_even y) - y\<bar> \<le> 1 / 2"
  unfolding round_even_def Let_def by (auto; linarith)

lemma powr2_int: "(2::real) powr (of_int k) = 2 powi k"
  by (simp add: powr_real_of_int')

lemma powr2_int1: "(2::real) powr (of_int k + 1) = 2 powi (k + 1)"
  using powr2_int[of "k + 1"] by simp

lemma floor_log2_le:
  assumes "0 < a"
  shows "2 powi \<lfloor>log 2 a\<rfloor> \<le> a"
proof -
  have "2 powr (of_int \<lfloor>log 2 a\<rfloor>) \<le> 2 powr (log 2 a)"
    by (intro powr_mono) simp_all
  then show ?thesis using assms by (simp add: powr2_int)
qed

lemma floor_log2_gt:
  assumes "0 < a"
  shows "a < 2 powi (\<lfloor>log 2 a\<rfloor> + 1)"
proof -
  have "log 2 a < of_int \<lfloor>log 2 a\<rfloor> + 1" by linarith
  then have "2 powr (log 2 a) < 2 powr (of_int \<lfloor>log 2 a\<rfloor> + 1)"
    by (intro powr_less_mono) simp_all
  then show ?thesis using assms by (simp add: powr2_int1)
qed

lemma floor_log2_eq:
  assumes "2 powi e \<le> a" "a < 2 powi (e + 1)"
  shows "\<lfloor>log 2 a\<rfloor> = e"
proof -
  have a: "0 < a" using assms(1) zero_less_power_int[of "2::real" e] by linarith
  have "2 powr (of_int e) \<le> a" "a < 2 powr (of_int e + 1)"
    using assms by (simp_all add: powr2_int powr2_int1)
  then have "of_int e \<le> log 2 a" "log 2 a < of_int e + 1"
    using a by (simp_all add: le_log_iff log_less_iff)
  then show ?thesis by linarith
qed

lemma powi2_less_D: "(2::real) powi m < 2 powi n \<Longrightarrow> m < n"
  using power_int_increasing[of n m "2::real"] by (cases "m < n") auto


lemma fl64_representable:
  assumes "representable x"
  shows "fl64 x = x"
proof (cases "x = 0")
  case True
  then show ?thesis by (simp add: fl64_def)
next
  case False
  obtain m :: int and a b :: nat where
    m: "\<bar>m\<bar> < 2 ^ 53" and x: "x = of_int m * 2 ^ a / 2 ^ b" and b: "b \<le> 1074"
    using assms unfolding representable_def by blast
  define k :: int where "k = int a - int b"
  have xk: "x = of_int m * 2 powi k"
    unfolding x k_def by (simp add: power_int_diff)
  have m0: "m \<noteq> 0" using False xk by auto
  define e where "e = exponent64 x"
  have e_le: "e \<le> k + 52"
  proof -
    have ax: "\<bar>x\<bar> = of_int \<bar>m\<bar> * 2 powi k" unfolding xk by (simp add: abs_mult)
    have "0 < \<bar>x\<bar>" using False by simp
    then have "2 powi \<lfloor>log 2 \<bar>x\<bar>\<rfloor> \<le> \<bar>x\<bar>" by (rule floor_log2_le)
    also have "\<dots> < 2 ^ 53 * 2 powi k"
      unfolding ax using m by (intro mult_strict_right_mono) (simp_all add: of_int_less_iff[where 'a = real, symmetric] del: of_int_less_iff)
    also have "\<dots> = 2 powi (k + 53)" by (simp add: power_int_add)
    finally have "\<lfloor>log 2 \<bar>x\<bar>\<rfloor> < k + 53"
      by (rule powi2_less_D)
    moreover have "- 1074 \<le> k" unfolding k_def using b by simp
    ultimately show ?thesis unfolding e_def exponent64_def by simp
  qed
  define j where "j = nat (k + 52 - e)"
  have j: "k + 52 - e = int j" unfolding j_def using e_le by simp
  have "x * 2 powi (52 - e) = of_int m * 2 powi (k + (52 - e))"
    unfolding xk by (simp add: power_int_add)
  also have "k + (52 - e) = int j" using j by simp
  also have "of_int m * 2 powi (int j) = (of_int (m * 2 ^ j) :: real)" by simp
  finally have y: "x * 2 powi (52 - e) = of_int (m * 2 ^ j)" .
  have "fl64 x = of_int (m * 2 ^ j) * 2 powi (e - 52)"
    using False unfolding fl64_def e_def[symmetric] y round_even_int by simp
  also have "\<dots> = of_int m * (2 powi (int j) * 2 powi (e - 52))" by simp
  also have "2 powi (int j) * 2 powi (e - 52) = (2::real) powi (int j + (e - 52))"
    by (simp add: power_int_add)
  also have "int j + (e - 52) = k" using j by simp
  finally show ?thesis unfolding xk .
qed

lemma fl64_error:
  assumes "1 / 2 ^ 1022 \<le> \<bar>x\<bar>"
  shows "\<bar>fl64 x - x\<bar> \<le> \<bar>x\<bar> / 2 ^ 53"
proof -
  have x0: "x \<noteq> 0" "0 < \<bar>x\<bar>" using assms
    by (auto intro: less_le_trans[of 0 "1 / 2 ^ 1022"])
  define l where "l = \<lfloor>log 2 \<bar>x\<bar>\<rfloor>"
  have "(2::real) powi (- 1022) \<le> \<bar>x\<bar>" using assms by (simp add: power_int_minus field_simps)
  also have "\<bar>x\<bar> < 2 powi (l + 1)" unfolding l_def using x0(2) by (rule floor_log2_gt)
  finally have "- 1022 < l + 1" by (rule powi2_less_D)
  then have e: "exponent64 x = l" unfolding exponent64_def l_def by simp
  have le: "2 powi l \<le> \<bar>x\<bar>" unfolding l_def using x0(2) by (rule floor_log2_le)
  define y where "y = x * 2 powi (52 - l)"
  have xy: "x = y * 2 powi (l - 52)"
    unfolding y_def by (simp add: power_int_add[symmetric])
  have "fl64 x - x = (of_int (round_even y) - y) * 2 powi (l - 52)"
    using x0(1) unfolding fl64_def e y_def[symmetric] by (subst (2) xy) (simp add: algebra_simps)
  then have "\<bar>fl64 x - x\<bar> = \<bar>of_int (round_even y) - y\<bar> * 2 powi (l - 52)"
    by (simp add: abs_mult)
  also have "\<dots> \<le> 1 / 2 * 2 powi (l - 52)"
    by (intro mult_right_mono round_even_close) simp
  also have "\<dots> = 2 powi l / 2 ^ 53"
    by (simp add: power_int_diff)
  also have "\<dots> \<le> \<bar>x\<bar> / 2 ^ 53" using le by (simp add: divide_right_mono)
  finally show ?thesis .
qed

lemma binary64_fl64: "binary64 fl64"
  unfolding binary64_def using fl64_representable fl64_error by blast

lemma fl64_eval:
  assumes "2 powi e \<le> \<bar>x\<bar>" "\<bar>x\<bar> < 2 powi (e + 1)" "- 1022 \<le> e"
    and "round_even (x * 2 powi (52 - e)) = n"
  shows "fl64 x = of_int n * 2 powi (e - 52)"
proof -
  have "0 < \<bar>x\<bar>" using assms(1) zero_less_power_int[of "2::real" e] by linarith
  then have x0: "x \<noteq> 0" by simp
  have "\<lfloor>log 2 \<bar>x\<bar>\<rfloor> = e" using assms(1,2) by (rule floor_log2_eq)
  then have "exponent64 x = e" using assms(3) by (simp add: exponent64_def)
  then show ?thesis using x0 assms(4) by (simp add: fl64_def)
qed

text \<open>
  C5. For each American odds value in \<open>{+150, -120, +100, -300}\<close>, converting to decimal
  odds with \<open>americanToDecimal\<close> and back with \<open>decimalToAmerican\<close> gives the value back,
  every arithmetic operation of the two functions being rounded to a double, by \<open>fl64\<close> or
  by any other rounding that is a \<open>binary64\<close>. The decimal odds in between are \<open>x / 100 + 1\<close>
  for the positive values, where every intermediate result is a double, and the rounded
  \<open>100 / |x| + 1\<close> for the negative ones, where the quotient given to \<open>Math.round\<close> is only
  close to the integer and \<open>Math.round\<close> recovers it.
\<close>

theorem american_decimal_round_trip:
  assumes "binary64 fl"
  shows "decimalToAmerican64 fl (americanToDecimal64 fl (Fin 150)) = Fin 150
   \<and> decimalToAmerican64 fl (americanToDecimal64 fl (Fin (- 120))) = Fin (- 120)
   \<and> decimalToAmerican64 fl (americanToDecimal64 fl (Fin 100)) = Fin 100
   \<and> decimalToAmerican64 fl (americanToDecimal64 fl (Fin (- 300))) = Fin (- 300)
   \<and> americanToDecimal64 fl (Fin 150) = Fin (150 / 100 + 1)
   \<and> americanToDecimal64 fl (Fin (- 120)) = Fin (fl (fl (100 / 120) + 1))
   \<and> americanToDecimal64 fl (Fin 100) = Fin (100 / 100 + 1)
   \<and> americanToDecimal64 fl (Fin (- 300)) = Fin (fl (fl (100 / 300) + 1))"
proof -
  note v = fl_values[OF assms]
  have 1: "decimalToAmerican64 fl (americanToDecimal64 fl (Fin 150)) = Fin 150"
    by (simp add: americanToDecimal64_def decimalToAmerican64_def js_sub_def v)
  have 3: "decimalToAmerican64 fl (americanToDecimal64 fl (Fin 100)) = Fin 100"
    by (simp add: americanToDecimal64_def decimalToAmerican64_def js_sub_def v)
  have 2: "decimalToAmerican64 fl (americanToDecimal64 fl (Fin (- 120))) = Fin (- 120)"
    using negative_round_trip[OF assms, of 120] by simp
  have 4: "decimalToAmerican64 fl (americanToDecimal64 fl (Fin (- 300))) = Fin (- 300)"
    using negative_round_trip[OF assms, of 300] by simp
  have 5: "americanToDecimal64 fl (Fin 150) = Fin (150 / 100 + 1)"
    by (simp add: americanToDecimal64_def v)
  have 6: "americanToDecimal64 fl (Fin (- 120)) = Fin (fl (fl (100 / 120) + 1))"
    by (simp add: americanToDecimal64_def)
  have 7: "americanToDecimal64 fl (Fin 100) = Fin (100 / 100 + 1)"
    by (simp add: americanToDecimal64_def v)
  have 8: "americanToDecimal64 fl (Fin (- 300)) = Fin (fl (fl (100 / 300) + 1))"
    by (simp add: americanToDecimal64_def)
  show ?thesis by (intro conjI) (rule 1 2 3 4 5 6 7 8)+
qed

theorem american_decimal_round_trip_witness:
  "binary64 fl64
   \<and> decimalToAmerican64 fl64 (americanToDecimal64 fl64 (Fin 150)) = Fin 150
   \<and> decimalToAmerican64 fl64 (americanToDecimal64 fl64 (Fin (- 120))) = Fin (- 120)
   \<and> decimalToAmerican64 fl64 (americanToDecimal64 fl64 (Fin 100)) = Fin 100
   \<and> decimalToAmerican64 fl64 (americanToDecimal64 fl64 (Fin (- 300))) = Fin (- 300)
   \<and> americanToDecimal64 fl64 (Fin 150) = Fin (150 / 100 + 1)
   \<and> americanToDecimal64 fl64 (Fin (- 120)) = Fin (fl64 (fl64 (100 / 120) + 1))
   \<and> americanToDecimal64 fl64 (Fin 100) = Fin (100 / 100 + 1)
   \<and> americanToDecimal64 fl64 (Fin (- 300)) = Fin (fl64 (fl64 (100 / 300) + 1))"
  using binary64_fl64 american_decimal_round_trip[OF binary64_fl64] by (rule conjI)

text \<open>
  The doubles on the way, for \<open>-120\<close> and \<open>-300\<close>: the decimal odds are
  \<open>1.8333333333333335\<close> and \<open>1.3333333333333333\<close>, and the quotients given to \<open>Math.round\<close> are
  \<open>-119.99999999999999\<close> and \<open>-300.00000000000006\<close>. Neither is the integer; rounding to
  the nearest integer gives it, where rounding down would give \<open>-301\<close>.
\<close>

lemma fl64_values_120:
  "fl64 (5 / 6) = 7505999378950827 / 9007199254740992"
  "fl64 (16513198633691819 / 9007199254740992) = 4128299658422955 / 2251799813685248"
  "fl64 (1876499844737707 / 2251799813685248) = 1876499844737707 / 2251799813685248"
  "fl64 (- (225179981368524800 / 1876499844737707)) = - (8444249301319679 / 70368744177664)"
  using fl64_eval[of "- 1" "5 / 6" 7505999378950827]
    fl64_eval[of 0 "16513198633691819 / 9007199254740992" 8256599316845910]
    fl64_eval[of "- 1" "1876499844737707 / 2251799813685248" 7505999378950828]
    fl64_eval[of 6 "- (225179981368524800 / 1876499844737707)" "- 8444249301319679"]
  by (simp_all add: round_even_def power_int_minus)

lemma fl64_values_300:
  "fl64 (1 / 3) = 6004799503160661 / 18014398509481984"
  "fl64 (24019198012642645 / 18014398509481984) = 6004799503160661 / 4503599627370496"
  "fl64 (1501199875790165 / 4503599627370496) = 1501199875790165 / 4503599627370496"
  "fl64 (- (90071992547409920 / 300239975158033)) = - (5277655813324801 / 17592186044416)"
  using fl64_eval[of "- 2" "1 / 3" 6004799503160661]
    fl64_eval[of 0 "24019198012642645 / 18014398509481984" 6004799503160661]
    fl64_eval[of "- 2" "1501199875790165 / 4503599627370496" 6004799503160660]
    fl64_eval[of 8 "- (90071992547409920 / 300239975158033)" "- 5277655813324801"]
  by (simp_all add: round_even_def power_int_minus)

lemma americanToDecimal64_fl64:
  "americanToDecimal64 fl64 (Fin (- 120)) = Fin (4128299658422955 / 2251799813685248)"
  "americanToDecimal64 fl64 (Fin (- 300)) = Fin (6004799503160661 / 4503599627370496)"
  by (simp_all add: americanToDecimal64_def fl64_values_120 fl64_values_300)

lemma quotient_fl64:
  "js_fl fl64 (js_div (Fin (- 100)) (js_fl fl64 (js_sub (Fin (4128299658422955 / 2251799813685248)) (Fin 1))))
     = Fin (- 8444249301319679 / 70368744177664)"
  "js_fl fl64 (js_div (Fin (- 100)) (js_fl fl64 (js_sub (Fin (6004799503160661 / 4503599627370496)) (Fin 1))))
     = Fin (- 5277655813324801 / 17592186044416)"
  by (simp_all add: js_sub_def fl64_values_120 fl64_values_300)

lemma rounding_recovers:
  "js_round (Fin (- 8444249301319679 / 70368744177664)) = Fin (- 120)"
  "(- 8444249301319679 / 70368744177664 :: real) \<noteq> - 120"
  "js_round (Fin (- 5277655813324801 / 17592186044416)) = Fin (- 300)"
  "\<lfloor>- 5277655813324801 / 17592186044416 :: real\<rfloor> = - 301"
  by simp_all

text \<open>
  A price of \<open>0.68\<close>, where the exact quotient is the tie \<open>-212.5\<close>: exact arithmetic gives
  \<open>-212\<close>, the doubles \<open>-213\<close>.
\<close>

lemma fl64_values_tie:
  "fl64 (17 / 25) = 6124895493223875 / 9007199254740992"
  "fl64 (9007199254740992 / 6124895493223875) = 6622940628486023 / 4503599627370496"
  "fl64 (2119341001115527 / 4503599627370496) = 2119341001115527 / 4503599627370496"
  "fl64 (- (450359962737049600 / 2119341001115527)) = - (3738339534438401 / 17592186044416)"
  using fl64_eval[of "- 1" "17 / 25" 6124895493223875]
    fl64_eval[of 0 "9007199254740992 / 6124895493223875" 6622940628486023]
    fl64_eval[of "- 2" "2119341001115527 / 4503599627370496" 8477364004462108]
    fl64_eval[of 7 "- (450359962737049600 / 2119341001115527)" "- 7476679068876802"]
  by (simp_all add: round_even_def power_int_minus)

lemma decimalToAmerican_tie_example:
  "decimalToAmerican (js_div (Fin 1) (Fin (17 / 25))) = Fin (- 212)"
  "decimalToAmerican64 fl64 (js_fl fl64 (js_div (Fin 1) (js_fl fl64 (Fin (17 / 25))))) = Fin (- 213)"
  by (simp_all add: decimalToAmerican_def decimalToAmerican64_def js_sub_def fl64_values_tie)

section \<open>Reconnection backoff\<close>

lemma onClose_fields:
  "maxReconnectAttempts (snd (onClose c)) = maxReconnectAttempts c"
  "reconnectDelay (snd (onClose c)) = reconnectDelay c"
  "\<not> isConnected (snd (onClose c))"
  "reconnectAttempts (snd (onClose c)) =
     (if maxReconnectAttempts c \<le> reconnectAttempts c then reconnectAttempts c
      else Suc (reconnectAttempts c))"
  "fst (onClose c) =
     (if maxReconnectAttempts c \<le> reconnectAttempts c then None
      else Some (reconnectDelay c * 2 ^ reconnectAttempts c))"
  by (simp_all add: onClose_def handleReconnection_def Let_def)

lemma failures_Suc:
  "failures (Suc n) c = (fst (onClose c) # fst (failures n (snd (onClose c))), snd (failures n (snd (onClose c))))"
  by (simp add: case_prod_beta Let_def)

lemma failures_fields:
  "maxReconnectAttempts (snd (failures n c)) = maxReconnectAttempts c
   \<and> reconnectDelay (snd (failures n c)) = reconnectDelay c"
proof (induction n arbitrary: c)
  case 0
  show ?case by simp
next
  case (Suc n)
  show ?case unfolding failures_Suc using Suc[of "snd (onClose c)"] by (simp add: onClose_fields)
qed

lemma failures_attempts:
  "reconnectAttempts c \<le> maxReconnectAttempts c \<Longrightarrow>
   reconnectAttempts (snd (failures n c)) = min (reconnectAttempts c + n) (maxReconnectAttempts c)"
proof (induction n arbitrary: c)
  case 0
  then show ?case by simp
next
  case (Suc n)
  have le: "reconnectAttempts (snd (onClose c)) \<le> maxReconnectAttempts (snd (onClose c))"
    using Suc.prems by (simp add: onClose_fields)
  show ?case unfolding failures_Suc using Suc.IH[OF le] Suc.prems
    by (simp add: onClose_fields)
qed

lemma failures_disconnected: "0 < n \<Longrightarrow> \<not> isConnected (snd (failures n c))"
proof (induction n arbitrary: c)
  case 0
  then show ?case by simp
next
  case (Suc n)
  show ?case
  proof (cases n)
    case 0
    then show ?thesis unfolding failures_Suc by (simp add: onClose_fields)
  next
    case (Suc m)
    then show ?thesis unfolding failures_Suc using Suc.IH[of "snd (onClose c)"] by simp
  qed
qed

lemma failures_delays:
  "fst (failures n c) =
     map (\<lambda>k. if reconnectAttempts c + k < maxReconnectAttempts c
               then Some (reconnectDelay c * 2 ^ (reconnectAttempts c + k)) else None) [0..<n]"
proof (induction n arbitrary: c)
  case 0
  show ?case by simp
next
  case (Suc n)
  show ?case
    unfolding failures_Suc
    apply (simp only: fst_conv Suc.IH[of "snd (onClose c)"] onClose_fields)
    apply (simp only: upt_conv_Cons[of 0 "Suc n"] map_Suc_upt[symmetric] list.map map_map comp_def)
    apply (auto simp: not_le)
    done
qed

text \<open>
  C8. Starting with an attempt count of zero, the \<open>n\<close>-th failure in a row schedules a
  reconnection after \<open>reconnectDelay * 2 ^ (n - 1)\<close> for every \<open>n\<close> up to
  \<open>maxReconnectAttempts\<close> and schedules nothing for a larger \<open>n\<close>; after \<open>N\<close> failures the
  attempt count is \<open>N\<close>, capped at the maximum, and the client is not connected; once the
  count has reached the maximum a further \<open>close\<close> event schedules nothing and changes
  nothing but the connected flag, which it sets to false.
\<close>

theorem reconnection_backoff:
  assumes "reconnectAttempts c = 0"
  shows "fst (failures N c) =
           map (\<lambda>n. if n \<le> maxReconnectAttempts c then Some (reconnectDelay c * 2 ^ (n - 1)) else None)
               [1..<Suc N]
         \<and> reconnectAttempts (snd (failures N c)) = min N (maxReconnectAttempts c)
         \<and> (0 < N \<longrightarrow> \<not> isConnected (snd (failures N c)))
         \<and> (maxReconnectAttempts c \<le> reconnectAttempts (snd (failures N c)) \<longrightarrow>
              onClose (snd (failures N c)) = (None, snd (failures N c)\<lparr>isConnected := False\<rparr>))"
proof -
  have d: "fst (failures N c) =
           map (\<lambda>n. if n \<le> maxReconnectAttempts c then Some (reconnectDelay c * 2 ^ (n - 1)) else None)
               [1..<Suc N]"
    unfolding failures_delays using assms
    by (simp only: map_Suc_upt[symmetric] map_map comp_def One_nat_def) (auto simp: Suc_le_eq)
  have a: "reconnectAttempts (snd (failures N c)) = min N (maxReconnectAttempts c)"
    using failures_attempts[of c N] assms by simp
  have i: "0 < N \<longrightarrow> \<not> isConnected (snd (failures N c))"
    using failures_disconnected by blast
  have s: "maxReconnectAttempts c \<le> reconnectAttempts (snd (failures N c)) \<longrightarrow>
              onClose (snd (failures N c)) = (None, snd (failures N c)\<lparr>isConnected := False\<rparr>)"
    using failures_fields[of N c] by (simp add: onClose_def handleReconnection_def)
  from d a i s show ?thesis by blast
qed

theorem reconnection_backoff_witness:
  "reconnectAttempts newBoltOddsClient = 0
   \<and> fst (failures 11 newBoltOddsClient) =
       [Some 5000, Some 10000, Some 20000, Some 40000, Some 80000, Some 160000, Some 320000,
        Some 640000, Some 1280000, Some 2560000, None]
   \<and> reconnectAttempts (snd (failures 11 newBoltOddsClient)) = 10
   \<and> \<not> isConnected (snd (failures 11 newBoltOddsClient))
   \<and> onClose (snd (failures 11 newBoltOddsClient)) =
       (None, snd (failures 11 newBoltOddsClient)\<lparr>isConnected := False\<rparr>)"
proof -
  have h: "reconnectAttempts newBoltOddsClient = 0" by (simp add: newBoltOddsClient_def)
  have u: "[1..<Suc 11] = [1,2,3,4,5,6,7,8,9,10,11::nat]" by (simp add: upt_rec)
  show ?thesis
    using h reconnection_backoff[OF h, of 11] unfolding u
    by (simp add: newBoltOddsClient_def)
qed

section \<open>The example data, evaluated\<close>

lemma mockStore_opportunities: "findTradingOpportunities mockStore 2000 = [mockOpportunity]"
  by code_simp

lemma mockLedger_positions: "activePositions mockLedger = [(''token-1'', mockPosition)]"
  by code_simp

lemma mockLedger_history: "tradingHistory mockLedger = [BuyEntry mockPosition mockOrder]"
  by code_simp

section \<open>The position ledger\<close>

lemma foldl_total: "foldl (\<lambda>total kp. total + amount (snd kp)) a al = a + sum_list (map (\<lambda>kp. amount (snd kp)) al)"
  by (induction al arbitrary: a) auto

lemma total_nonneg: "ledgerInv st \<Longrightarrow> 0 \<le> getTotalPositionValue st"
  unfolding getTotalPositionValue_def foldl_total ledgerInv_def
  by (force intro!: sum_list_nonneg)

lemma set_update_subset: "set (AList.update k v al) \<subseteq> insert (k, v) (set al)"
  by (induction al) auto

lemma set_delete_subset: "set (AList.delete k al) \<subseteq> set al"
  by (induction al) auto

lemma ledgerInv_update:
  assumes "ledgerInv st" "pos_tokenId p = k" "status p = ''open''" "0 < amount p"
  shows "ledgerInv (st\<lparr>activePositions := AList.update k p (activePositions st), tradingHistory := h\<rparr>)"
  using assms set_update_subset[of k p "activePositions st"]
  unfolding ledgerInv_def by (auto simp: distinct_update)

lemma ledgerInv_delete:
  assumes "ledgerInv st"
  shows "ledgerInv (st\<lparr>activePositions := AList.delete k (activePositions st), tradingHistory := h\<rparr>)"
  using assms set_delete_subset[of k "activePositions st"]
  unfolding ledgerInv_def by (auto simp: distinct_delete)

lemma ledgerInv_executeBuyOrder:
  assumes "ledgerInv st" "0 < maxPositionSize st"
  shows "ledgerInv (executeBuyOrder st opp book placed now)"
proof -
  have pos: "0 < min (maxPositionSize st * 0.1) 50" using assms(2) by simp
  show ?thesis
    unfolding executeBuyOrder_def Let_def
    using assms(1) pos
    by (auto split: sum.splits option.splits intro!: ledgerInv_update)
qed

lemma executeBuyOrder_cap:
  "maxPositionSize (executeBuyOrder st opp book placed now) = maxPositionSize st"
  unfolding executeBuyOrder_def Let_def by (auto split: sum.splits option.splits)

lemma evaluateOpportunity_startsBuy:
  "evaluateOpportunity st opp book placed now =
     (if startsBuy st opp then executeBuyOrder st opp book placed now else st)"
  by (auto simp: evaluateOpportunity_def startsBuy_def)

lemma startsBuy_cap: "ledgerInv st \<Longrightarrow> startsBuy st opp \<Longrightarrow> 0 < maxPositionSize st"
  using total_nonneg[of st] by (simp add: startsBuy_def)

lemma ledgerInv_evaluateOpportunity:
  "ledgerInv st \<Longrightarrow> ledgerInv (evaluateOpportunity st opp book placed now)"
  unfolding evaluateOpportunity_startsBuy
  by (simp add: ledgerInv_executeBuyOrder startsBuy_cap)

lemma ledgerInv_completions:
  "ledgerInv st \<Longrightarrow> 0 < maxPositionSize st \<Longrightarrow> ledgerInv (foldl completeBuy st calls)"
proof (induction calls arbitrary: st)
  case Nil
  then show ?case by simp
next
  case (Cons c calls)
  obtain opp book placed now where c: "c = (opp, book, placed, now)" by (cases c) auto
  have "ledgerInv (completeBuy st c)" "0 < maxPositionSize (completeBuy st c)"
    unfolding c completeBuy_def using Cons.prems
    by (simp_all add: ledgerInv_executeBuyOrder executeBuyOrder_cap)
  then show ?case using Cons.IH by simp
qed

text \<open>The pass keeps the invariant of the ledger, although its calls overlap.\<close>

lemma ledgerInv_checkTradingOpportunities:
  assumes "ledgerInv st"
  shows "ledgerInv (checkTradingOpportunities st calls)"
proof (cases "filter (\<lambda>call. startsBuy st (fst call)) calls")
  case Nil
  then show ?thesis using assms by (simp add: checkTradingOpportunities_def)
next
  case (Cons c cs)
  then have "c \<in> set (filter (\<lambda>call. startsBuy st (fst call)) calls)" by simp
  then have "startsBuy st (fst c)" by simp
  then have "0 < maxPositionSize st" using assms startsBuy_cap by blast
  then show ?thesis
    unfolding checkTradingOpportunities_def using assms by (rule ledgerInv_completions[rotated])
qed

lemma soldPosition_fields:
  "pos_tokenId (soldPosition pos a b now) = pos_tokenId pos"
  "amount (soldPosition pos a b now) = amount pos - a"
  "status (soldPosition pos a b now) = (if amount pos - a \<le> 0 then ''closed'' else status pos)"
  "sellPrice (soldPosition pos a b now) = Some b"
  "sellTime (soldPosition pos a b now) = Some now"
  by (simp_all add: soldPosition_def Let_def)

lemma ledgerInv_sellPosition:
  assumes "ledgerInv st"
  shows "ledgerInv (snd (sellPosition st tid amt book placed now))"
proof (cases "map_of (activePositions st) tid")
  case None
  then show ?thesis using assms by (simp add: sellPosition_def)
next
  case (Some pos)
  then have mem: "(tid, pos) \<in> set (activePositions st)" by (rule map_of_SomeD)
  with assms have p: "pos_tokenId pos = tid" "status pos = ''open''"
    unfolding ledgerInv_def by auto
  show ?thesis
    unfolding sellPosition_def Let_def using Some assms p
    by (auto split: sum.splits option.splits simp: soldPosition_fields not_le
             intro!: ledgerInv_update ledgerInv_delete)
qed

lemma ledgerInv_new: "ledgerInv (newTradingBot m a t)"
  by (simp add: ledgerInv_def newTradingBot_def)

lemma sellPosition_not_found:
  "map_of (activePositions st) tid = None \<Longrightarrow>
   sellPosition st tid amt book placed now =
     (Inl (Error (''No active position found for token '' @ tid)), st)"
  by (simp add: sellPosition_def)

lemma sellPosition_no_bid:
  "map_of (activePositions st) tid = Some pos \<Longrightarrow> firstLevel (bids ob) = None \<Longrightarrow>
   sellPosition st tid amt (Inr ob) placed now =
     (Inl (Error ''No bids available for sell order''), st)"
  by (simp add: sellPosition_def)

lemma sellPosition_sold:
  assumes "map_of (activePositions st) tid = Some pos" "firstLevel (bids ob) = Some bid"
  shows "sellPosition st tid amt (Inr ob) (Inr res) now =
     (Inr res,
      st\<lparr>activePositions :=
            (if amount pos - sellAmountOf amt pos \<le> 0 then AList.delete tid (activePositions st)
             else AList.update tid (soldPosition pos (sellAmountOf amt pos) (level_price bid) now)
                    (activePositions st)),
          tradingHistory :=
            tradingHistory st @ [SellEntry tid (sellAmountOf amt pos) (level_price bid) now res]\<rparr>)"
  using assms by (simp add: sellPosition_def Let_def soldPosition_fields)

lemma evaluateOpportunity_held:
  "map_of (activePositions st) (rec_tokenId (opp_recommendation opp)) \<noteq> None \<Longrightarrow>
   evaluateOpportunity st opp book placed now = st"
  by (simp add: evaluateOpportunity_def)

lemma executeBuyOrder_keys:
  "fst ` set (activePositions st) \<subseteq> fst ` set (activePositions (executeBuyOrder st opp book placed now))"
  unfolding executeBuyOrder_def Let_def
  by (auto split: sum.splits option.splits simp: dom_update)

lemma evaluateOpportunity_keys:
  "fst ` set (activePositions st) \<subseteq> fst ` set (activePositions (evaluateOpportunity st opp book placed now))"
  unfolding evaluateOpportunity_def using executeBuyOrder_keys by auto

lemma sellPosition_removed_iff:
  assumes "map_of (activePositions st) tid = Some pos" "status pos = ''open''"
    "firstLevel (bids ob) = Some bid"
  shows "(map_of (activePositions (snd (sellPosition st tid amt (Inr ob) (Inr res) now))) tid = None)
         = (status (soldPosition pos (sellAmountOf amt pos) (level_price bid) now) = ''closed'')"
  unfolding sellPosition_sold[OF assms(1,3)] using assms(2)
  by (simp add: delete_conv' update_conv' soldPosition_fields)

lemma sellPosition_failed:
  "fst (sellPosition st tid amt book placed now) = Inl e \<Longrightarrow>
   snd (sellPosition st tid amt book placed now) = st"
  unfolding sellPosition_def Let_def
  by (auto split: option.splits sum.splits)


text \<open>
  C2. The claim fails on the pass of the source. \<open>checkTradingOpportunities\<close> starts every
  \<open>evaluateOpportunity\<close> before any of them has recorded a position, so two opportunities
  on one token both pass the test for a held token. On the two mock games and two tokens,
  from the empty ledger: the pass names \<open>token-1\<close> twice, three buys are recorded, two of
  them on \<open>token-1\<close>, and the active set ends with the second \<open>token-1\<close> position in the place
  of the first, which was never closed.
\<close>

theorem pass_buys_held_token_again:
  "map (\<lambda>call. rec_tokenId (opp_recommendation (fst call))) mockCalls
     = [''token-1'', ''token-2'', ''token-1'', ''token-2'']
   \<and> map (\<lambda>e. case e of
              BuyEntry p r \<Rightarrow> (''buy'', pos_tokenId p, team (va_outcome (pos_valueAnalysis p)), status p)
            | SellEntry t a pr tm r \<Rightarrow> (''sell'', t, [], []))
         (tradingHistory mockPass)
     = [(''buy'', ''token-1'', ''Boston Bruins'', ''open''),
        (''buy'', ''token-2'', ''Boston Bruins'', ''open''),
        (''buy'', ''token-1'', ''Montreal Canadiens'', ''open'')]
   \<and> map (\<lambda>kp. (fst kp, team (va_outcome (pos_valueAnalysis (snd kp))), status (snd kp)))
         (activePositions mockPass)
     = [(''token-1'', ''Montreal Canadiens'', ''open''), (''token-2'', ''Boston Bruins'', ''open'')]"
  by code_simp

text \<open>
  Had the loop waited for each call, the second opportunity on \<open>token-1\<close> would have found the
  token held and bought nothing.
\<close>

lemma awaited_calls_example:
  "map (\<lambda>kp. (fst kp, team (va_outcome (pos_valueAnalysis (snd kp)))))
     (activePositions (foldl (\<lambda>st call. case call of (opp, book, placed, now) \<Rightarrow>
          evaluateOpportunity st opp book placed now) (newTradingBot 100 False 0.1) mockCalls))
   = [(''token-1'', ''Boston Bruins''), (''token-2'', ''Boston Bruins'')]"
  by code_simp

text \<open>
  The test for a held token is made by \<open>evaluateOpportunity\<close>, before it waits for the order
  book; \<open>executeBuyOrder\<close> has none. Run on a ledger that holds the token, it replaces the
  position under the same key and appends a second buy entry.
\<close>

lemma executeBuyOrder_unguarded_example:
  "map fst (activePositions (executeBuyOrder mockLedger mockOpportunity (Inr mockBook) (Inr mockOrder) 4000))
     = [''token-1'']
   \<and> map action (tradingHistory (executeBuyOrder mockLedger mockOpportunity (Inr mockBook) (Inr mockOrder) 4000))
     = [''buy'', ''buy'']
   \<and> map (buyTime \<circ> snd) (activePositions (executeBuyOrder mockLedger mockOpportunity (Inr mockBook) (Inr mockOrder) 4000))
     = [4000]"
  by code_simp

text \<open>
  C3.\<open>sellPosition\<close> fails with the not-found error when the token has no active position
  and with the no-bids error when the book has no bid, leaving the bot unchanged in both
  cases; when the order is placed it appends a sell entry, takes the amount sold off the
  position, removes the position when the remaining amount is at most zero and keeps the
  updated position otherwise, and touches no other position.
\<close>

theorem sell_position_outcomes:
  "(map_of (activePositions st) tid = None \<longrightarrow>
      sellPosition st tid amt book placed now =
        (Inl (Error (''No active position found for token '' @ tid)), st))
   \<and> (map_of (activePositions st) tid = Some pos \<and> firstLevel (bids ob) = None \<longrightarrow>
      sellPosition st tid amt (Inr ob) placed now =
        (Inl (Error ''No bids available for sell order''), st))
   \<and> (map_of (activePositions st) tid = Some pos \<and> firstLevel (bids ob) = Some bid \<longrightarrow>
      (\<exists>st'. sellPosition st tid amt (Inr ob) (Inr res) now = (Inr res, st')
         \<and> tradingHistory st' =
             tradingHistory st @ [SellEntry tid (sellAmountOf amt pos) (level_price bid) now res]
         \<and> action (last (tradingHistory st')) = ''sell''
         \<and> map_of (activePositions st') tid =
             (if amount pos - sellAmountOf amt pos \<le> 0 then None
              else Some (pos\<lparr>amount := amount pos - sellAmountOf amt pos,
                             sellPrice := Some (level_price bid), sellTime := Some now\<rparr>))
         \<and> (\<forall>t. t \<noteq> tid \<longrightarrow> map_of (activePositions st') t = map_of (activePositions st) t)))"
proof (intro conjI impI)
  assume "map_of (activePositions st) tid = None"
  then show "sellPosition st tid amt book placed now =
        (Inl (Error (''No active position found for token '' @ tid)), st)"
    by (rule sellPosition_not_found)
next
  assume "map_of (activePositions st) tid = Some pos \<and> firstLevel (bids ob) = None"
  then show "sellPosition st tid amt (Inr ob) placed now =
        (Inl (Error ''No bids available for sell order''), st)"
    using sellPosition_no_bid by blast
next
  assume a: "map_of (activePositions st) tid = Some pos \<and> firstLevel (bids ob) = Some bid"
  let ?st' = "snd (sellPosition st tid amt (Inr ob) (Inr res) now)"
  note s = sellPosition_sold[of st tid pos ob bid amt res now]
  have 1: "sellPosition st tid amt (Inr ob) (Inr res) now = (Inr res, ?st')"
    using a s by simp
  have 2: "tradingHistory ?st' =
             tradingHistory st @ [SellEntry tid (sellAmountOf amt pos) (level_price bid) now res]"
    using a s by simp
  have 3: "action (last (tradingHistory ?st')) = ''sell''"
    unfolding 2 by simp
  have 4: "map_of (activePositions ?st') tid =
             (if amount pos - sellAmountOf amt pos \<le> 0 then None
              else Some (pos\<lparr>amount := amount pos - sellAmountOf amt pos,
                             sellPrice := Some (level_price bid), sellTime := Some now\<rparr>))"
    using a s by (simp add: delete_conv' update_conv' soldPosition_def Let_def)
  have 5: "\<forall>t. t \<noteq> tid \<longrightarrow> map_of (activePositions ?st') t = map_of (activePositions st) t"
    using a s by (simp add: delete_conv' update_conv')
  from 1 2 3 4 5
  show "\<exists>st'. sellPosition st tid amt (Inr ob) (Inr res) now = (Inr res, st')
         \<and> tradingHistory st' =
             tradingHistory st @ [SellEntry tid (sellAmountOf amt pos) (level_price bid) now res]
         \<and> action (last (tradingHistory st')) = ''sell''
         \<and> map_of (activePositions st') tid =
             (if amount pos - sellAmountOf amt pos \<le> 0 then None
              else Some (pos\<lparr>amount := amount pos - sellAmountOf amt pos,
                             sellPrice := Some (level_price bid), sellTime := Some now\<rparr>))
         \<and> (\<forall>t. t \<noteq> tid \<longrightarrow> map_of (activePositions st') t = map_of (activePositions st) t)"
    by blast
qed


theorem sell_position_outcomes_witness:
  "map_of (activePositions mockLedger) ''token-2'' = None
   \<and> sellPosition mockLedger ''token-2'' None (Inr mockBook) (Inr mockOrder) 7000
       = (Inl (Error ''No active position found for token token-2''), mockLedger)
   \<and> map_of (activePositions mockLedger) ''token-1'' = Some mockPosition
   \<and> firstLevel (bids (mockBook\<lparr>bids := Some []\<rparr>)) = None
   \<and> sellPosition mockLedger ''token-1'' None (Inr (mockBook\<lparr>bids := Some []\<rparr>)) (Inr mockOrder) 7000
       = (Inl (Error ''No bids available for sell order''), mockLedger)
   \<and> firstLevel (bids mockBook) = Some \<lparr>level_price = 0.29\<rparr>
   \<and> (\<exists>st'. sellPosition mockLedger ''token-1'' (Some 4) (Inr mockBook) (Inr mockOrder) 7000
               = (Inr mockOrder, st')
            \<and> tradingHistory st' =
                [BuyEntry mockPosition mockOrder, SellEntry ''token-1'' 4 0.29 7000 mockOrder]
            \<and> map_of (activePositions st') ''token-1'' =
                Some (mockPosition\<lparr>amount := 6, sellPrice := Some 0.29, sellTime := Some 7000\<rparr>))"
proof -
  have h1: "map_of (activePositions mockLedger) ''token-2'' = None" by code_simp
  have h2: "map_of (activePositions mockLedger) ''token-1'' = Some mockPosition" by code_simp
  have h3: "firstLevel (bids (mockBook\<lparr>bids := Some []\<rparr>)) = None" by code_simp
  have h4: "firstLevel (bids mockBook) = Some \<lparr>level_price = 0.29\<rparr>" by code_simp
  have a: "sellAmountOf (Some 4) mockPosition = 4" by code_simp
  have b: "amount mockPosition = 10" by code_simp
  have hist: "tradingHistory mockLedger = [BuyEntry mockPosition mockOrder]" by code_simp
  note t1 = sell_position_outcomes[where st = mockLedger and tid = "''token-2''" and amt = None
      and book = "Inr mockBook" and placed = "Inr mockOrder" and now = 7000]
  note t2 = sell_position_outcomes[where st = mockLedger and tid = "''token-1''" and amt = None
      and pos = mockPosition and ob = "mockBook\<lparr>bids := Some []\<rparr>"
      and placed = "Inr mockOrder" and now = 7000]
  note t3 = sell_position_outcomes[where st = mockLedger and tid = "''token-1''" and amt = "Some 4"
      and pos = mockPosition and ob = mockBook and bid = "\<lparr>level_price = 0.29\<rparr>"
      and res = mockOrder and now = 7000]
  have c1: "sellPosition mockLedger ''token-2'' None (Inr mockBook) (Inr mockOrder) 7000
       = (Inl (Error ''No active position found for token token-2''), mockLedger)"
    using t1[THEN conjunct1] h1 by (simp del: append.simps)
  have c2: "sellPosition mockLedger ''token-1'' None (Inr (mockBook\<lparr>bids := Some []\<rparr>)) (Inr mockOrder) 7000
       = (Inl (Error ''No bids available for sell order''), mockLedger)"
    using t2[THEN conjunct2, THEN conjunct1] h2 h3 by simp
  have c3: "\<exists>st'. sellPosition mockLedger ''token-1'' (Some 4) (Inr mockBook) (Inr mockOrder) 7000
               = (Inr mockOrder, st')
            \<and> tradingHistory st' =
                [BuyEntry mockPosition mockOrder, SellEntry ''token-1'' 4 0.29 7000 mockOrder]
            \<and> map_of (activePositions st') ''token-1'' =
                Some (mockPosition\<lparr>amount := 6, sellPrice := Some 0.29, sellTime := Some 7000\<rparr>)"
    using t3[THEN conjunct2, THEN conjunct2] h2 h4 unfolding a b hist by auto
  show ?thesis
    by (intro conjI) (rule h1 h2 h3 h4 c1 c2 c3)+
qed

text \<open>
  C10. For an active position with a positive amount and a requested amount above it, a sell
  with a bid in the book and a placed order succeeds: the sell entry records the requested
  amount, the position's amount goes negative, its status becomes closed and it leaves
  the active set.
\<close>

theorem oversell_closes:
  assumes "map_of (activePositions st) tid = Some pos" "0 < amount pos" "amount pos < a"
    "firstLevel (bids ob) = Some bid"
  shows "\<exists>st'. sellPosition st tid (Some a) (Inr ob) (Inr res) now = (Inr res, st')
     \<and> tradingHistory st' = tradingHistory st @ [SellEntry tid a (level_price bid) now res]
     \<and> map_of (activePositions st') tid = None
     \<and> amount (soldPosition pos a (level_price bid) now) = amount pos - a
     \<and> amount (soldPosition pos a (level_price bid) now) < 0
     \<and> status (soldPosition pos a (level_price bid) now) = ''closed''"
proof -
  have sa: "sellAmountOf (Some a) pos = a" using assms by (simp add: sellAmountOf_def)
  show ?thesis
    using assms sellPosition_sold[OF assms(1) assms(4), of "Some a" res now]
    unfolding sa
    by (simp add: delete_conv' soldPosition_fields)
qed

theorem oversell_closes_witness:
  "map_of (activePositions mockLedger) ''token-1'' = Some mockPosition
   \<and> 0 < amount mockPosition \<and> amount mockPosition < 25
   \<and> firstLevel (bids mockBook) = Some \<lparr>level_price = 0.29\<rparr>
   \<and> (\<exists>st'. sellPosition mockLedger ''token-1'' (Some 25) (Inr mockBook) (Inr mockOrder) 7000
                 = (Inr mockOrder, st')
          \<and> tradingHistory st' =
               [BuyEntry mockPosition mockOrder, SellEntry ''token-1'' 25 0.29 7000 mockOrder]
          \<and> map_of (activePositions st') ''token-1'' = None)
   \<and> amount (soldPosition mockPosition 25 0.29 7000) = - 15
   \<and> status (soldPosition mockPosition 25 0.29 7000) = ''closed''"
proof -
  have h1: "map_of (activePositions mockLedger) ''token-1'' = Some mockPosition" by code_simp
  have h2: "0 < amount mockPosition" by code_simp
  have h3: "amount mockPosition < 25" by code_simp
  have h4: "firstLevel (bids mockBook) = Some \<lparr>level_price = 0.29\<rparr>" by code_simp
  have b: "amount mockPosition = 10" by code_simp
  have hist: "tradingHistory mockLedger = [BuyEntry mockPosition mockOrder]" by code_simp
  note t = oversell_closes[OF h1 h2 h3 h4, of mockOrder 7000]
  have c1: "\<exists>st'. sellPosition mockLedger ''token-1'' (Some 25) (Inr mockBook) (Inr mockOrder) 7000
                 = (Inr mockOrder, st')
          \<and> tradingHistory st' =
               [BuyEntry mockPosition mockOrder, SellEntry ''token-1'' 25 0.29 7000 mockOrder]
          \<and> map_of (activePositions st') ''token-1'' = None"
    using t unfolding hist by auto
  have c2: "amount (soldPosition mockPosition 25 0.29 7000) = - 15"
    using t unfolding b by auto
  have c3: "status (soldPosition mockPosition 25 0.29 7000) = ''closed''"
    using t by auto
  show ?thesis
    by (intro conjI) (rule h1 h2 h3 h4 c1 c2 c3)+
qed


section \<open>The auto-sell sweep\<close>

lemma autoSellLoop_set:
  "set (autoSellLoop al now) = {tid. \<exists>pos. (tid, pos) \<in> set al \<and> 2 < hoursHeld pos now}"
  by (induction al now rule: autoSellLoop.induct) auto


text \<open>
  C7, as the code has it. The sweep calls \<open>sellPosition\<close> without an amount, which sells the
  whole position, for exactly the positions held longer than two hours; the limit is the
  constant in the sweep, and the result does not depend on \<open>autoSellThreshold\<close>. A position
  bought three hours ago is selected, one bought an hour ago is not.
\<close>

theorem auto_sell_sweep:
  "set (checkAutoSellConditions st now)
     = {tid. \<exists>pos. (tid, pos) \<in> set (activePositions st) \<and> 2 < hoursHeld pos now}
   \<and> checkAutoSellConditions (st\<lparr>autoSellThreshold := x\<rparr>) now = checkAutoSellConditions st now
   \<and> ((tid, pos) \<in> set (activePositions st) \<and> now - buyTime pos = 3 * (1000 * 60 * 60) \<longrightarrow>
        tid \<in> set (checkAutoSellConditions st now))
   \<and> (distinct (map fst (activePositions st)) \<and> (tid, pos) \<in> set (activePositions st)
        \<and> now - buyTime pos = 1000 * 60 * 60 \<longrightarrow>
        tid \<notin> set (checkAutoSellConditions st now))
   \<and> sellAmountOf None pos = amount pos"
proof -
  have 1: "set (checkAutoSellConditions st now)
     = {tid. \<exists>pos. (tid, pos) \<in> set (activePositions st) \<and> 2 < hoursHeld pos now}"
    by (simp add: checkAutoSellConditions_def autoSellLoop_set)
  have 2: "checkAutoSellConditions (st\<lparr>autoSellThreshold := x\<rparr>) now = checkAutoSellConditions st now"
    by (simp add: checkAutoSellConditions_def)
  have 3: "(tid, pos) \<in> set (activePositions st) \<and> now - buyTime pos = 3 * (1000 * 60 * 60) \<longrightarrow>
        tid \<in> set (checkAutoSellConditions st now)"
  proof
    assume a: "(tid, pos) \<in> set (activePositions st) \<and> now - buyTime pos = 3 * (1000 * 60 * 60)"
    then have "2 < hoursHeld pos now" by (simp add: hoursHeld_def)
    with a show "tid \<in> set (checkAutoSellConditions st now)" unfolding 1 by blast
  qed
  have 4: "distinct (map fst (activePositions st)) \<and> (tid, pos) \<in> set (activePositions st)
        \<and> now - buyTime pos = 1000 * 60 * 60 \<longrightarrow>
        tid \<notin> set (checkAutoSellConditions st now)"
  proof
    assume a: "distinct (map fst (activePositions st)) \<and> (tid, pos) \<in> set (activePositions st)
        \<and> now - buyTime pos = 1000 * 60 * 60"
    then have h: "\<not> 2 < hoursHeld pos now" by (simp add: hoursHeld_def)
    have "\<And>p. (tid, p) \<in> set (activePositions st) \<Longrightarrow> p = pos"
      using a by (meson eq_key_imp_eq_value)
    with h show "tid \<notin> set (checkAutoSellConditions st now)" unfolding 1 by blast
  qed
  have 5: "sellAmountOf None pos = amount pos" by (simp add: sellAmountOf_def)
  show ?thesis by (intro conjI) (rule 1 2 3 4 5)+
qed

theorem auto_sell_sweep_witness:
  "(''token-1'', mockPosition) \<in> set (activePositions mockLedger)
   \<and> distinct (map fst (activePositions mockLedger))
   \<and> 10803000 - buyTime mockPosition = 3 * (1000 * 60 * 60)
   \<and> 3603000 - buyTime mockPosition = 1000 * 60 * 60
   \<and> ''token-1'' \<in> set (checkAutoSellConditions mockLedger 10803000)
   \<and> ''token-1'' \<notin> set (checkAutoSellConditions mockLedger 3603000)
   \<and> checkAutoSellConditions mockLedger 10803000 = [''token-1'']
   \<and> checkAutoSellConditions mockLedger 3603000 = []"
proof -
  have h1: "(''token-1'', mockPosition) \<in> set (activePositions mockLedger)" by code_simp
  have h2: "distinct (map fst (activePositions mockLedger))" by code_simp
  have h3: "10803000 - buyTime mockPosition = 3 * (1000 * 60 * 60)" by code_simp
  have h4: "3603000 - buyTime mockPosition = 1000 * 60 * 60" by code_simp
  note t3 = auto_sell_sweep[where st = mockLedger and tid = "''token-1''" and pos = mockPosition
      and now = 10803000]
  note t1 = auto_sell_sweep[where st = mockLedger and tid = "''token-1''" and pos = mockPosition
      and now = 3603000]
  have c1: "''token-1'' \<in> set (checkAutoSellConditions mockLedger 10803000)"
    using t3[THEN conjunct2, THEN conjunct2, THEN conjunct1] h1 h3 by blast
  have c2: "''token-1'' \<notin> set (checkAutoSellConditions mockLedger 3603000)"
    using t1[THEN conjunct2, THEN conjunct2, THEN conjunct2, THEN conjunct1] h1 h2 h4 by blast
  have c3: "checkAutoSellConditions mockLedger 10803000 = [''token-1'']" by code_simp
  have c4: "checkAutoSellConditions mockLedger 3603000 = []" by code_simp
  show ?thesis by (intro conjI) (rule h1 h2 h3 h4 c1 c2 c3 c4)+
qed

text \<open>
  With the configuration's default threshold \<open>0.1\<close>, a position held for an hour and a half
  exceeds the configured threshold and is not selected.
\<close>

theorem auto_sell_threshold_counterexample:
  "map_of (activePositions mockLedger) ''token-1'' = Some mockPosition
   \<and> autoSellThreshold mockLedger = 1 / 10
   \<and> hoursHeld mockPosition 5403000 = 3 / 2
   \<and> autoSellThreshold mockLedger < hoursHeld mockPosition 5403000
   \<and> checkAutoSellConditions mockLedger 5403000 = []"
  by code_simp

section \<open>Price ingestion\<close>

text \<open>
  C1, as the code has it. \<open>updatePolymarketData\<close> checks nothing: every call stores the record
  it is given under its token, with the current time, whatever the price; it touches no
  entry of another token and not the odds store.
\<close>

theorem ingest_price_unconditional:
  "map_of (polymarketData (updatePolymarketData tid md now st)) tid = Some (md\<lparr>pd_timestamp := now\<rparr>)
   \<and> (\<forall>t. t \<noteq> tid \<longrightarrow>
         map_of (polymarketData (updatePolymarketData tid md now st)) t = map_of (polymarketData st) t)
   \<and> boltOddsData (updatePolymarketData tid md now st) = boltOddsData st"
  by (simp add: updatePolymarketData_def update_conv')

theorem ingest_price_unconditional_witness:
  "''token-1'' \<noteq> ''token-9''
   \<and> map_of (polymarketData (updatePolymarketData ''token-9'' \<lparr>price = Some (Fin (3 / 2)), pd_timestamp = 0\<rparr> 5000 mockStore)) ''token-9''
     = Some \<lparr>price = Some (Fin (3 / 2)), pd_timestamp = 5000\<rparr>
   \<and> map_of (polymarketData (updatePolymarketData ''token-9'' \<lparr>price = Some (Fin (3 / 2)), pd_timestamp = 0\<rparr> 5000 mockStore)) ''token-1''
     = map_of (polymarketData mockStore) ''token-1''
   \<and> boltOddsData (updatePolymarketData ''token-9'' \<lparr>price = Some (Fin (3 / 2)), pd_timestamp = 0\<rparr> 5000 mockStore)
     = boltOddsData mockStore"
proof -
  note t = ingest_price_unconditional[where tid = "''token-9''"
      and md = "\<lparr>price = Some (Fin (3 / 2)), pd_timestamp = 0\<rparr>" and now = 5000 and st = mockStore]
  have h: "''token-1'' \<noteq> ''token-9''" by simp
  have 1: "map_of (polymarketData (updatePolymarketData ''token-9'' \<lparr>price = Some (Fin (3 / 2)), pd_timestamp = 0\<rparr> 5000 mockStore)) ''token-9''
     = Some \<lparr>price = Some (Fin (3 / 2)), pd_timestamp = 5000\<rparr>"
    using t[THEN conjunct1] by simp
  have 2: "map_of (polymarketData (updatePolymarketData ''token-9'' \<lparr>price = Some (Fin (3 / 2)), pd_timestamp = 0\<rparr> 5000 mockStore)) ''token-1''
     = map_of (polymarketData mockStore) ''token-1''"
    using t[THEN conjunct2, THEN conjunct1, rule_format, OF h] .
  have 3: "boltOddsData (updatePolymarketData ''token-9'' \<lparr>price = Some (Fin (3 / 2)), pd_timestamp = 0\<rparr> 5000 mockStore)
     = boltOddsData mockStore"
    using t[THEN conjunct2, THEN conjunct2] .
  show ?thesis by (intro conjI) (rule h 1 2 3)+
qed

text \<open>The prices \<open>1.5\<close>, \<open>0\<close>, \<open>1\<close> and \<open>-0.2\<close> are all stored by the ingestion call.\<close>

theorem ingest_invalid_price_counterexample:
  "map_of (polymarketData (updatePolymarketData ''token-9'' \<lparr>price = Some (Fin (3 / 2)), pd_timestamp = 0\<rparr> 5000 mockStore)) ''token-9''
     = Some \<lparr>price = Some (Fin (3 / 2)), pd_timestamp = 5000\<rparr>
   \<and> map_of (polymarketData (updatePolymarketData ''token-9'' \<lparr>price = Some (Fin 0), pd_timestamp = 0\<rparr> 5000 mockStore)) ''token-9''
     = Some \<lparr>price = Some (Fin 0), pd_timestamp = 5000\<rparr>
   \<and> map_of (polymarketData (updatePolymarketData ''token-9'' \<lparr>price = Some (Fin 1), pd_timestamp = 0\<rparr> 5000 mockStore)) ''token-9''
     = Some \<lparr>price = Some (Fin 1), pd_timestamp = 5000\<rparr>
   \<and> map_of (polymarketData (updatePolymarketData ''token-9'' \<lparr>price = Some (Fin (- 1 / 5)), pd_timestamp = 0\<rparr> 5000 mockStore)) ''token-9''
     = Some \<lparr>price = Some (Fin (- 1 / 5)), pd_timestamp = 5000\<rparr>"
  by code_simp


section \<open>The default price of a match\<close>

lemma priceOrDefault_missing:
  "p = None \<or> p = Some (Fin 0) \<Longrightarrow> priceOrDefault p = Fin 0.5"
  by (auto simp: priceOrDefault_def)

lemma half_odds:
  "polymarketPriceToDecimal (Fin (1 / 2)) = Some (Fin 2)"
  "polymarketPriceToAmerican (Fin (1 / 2)) = Some (Fin 100)"
  by (simp_all add: polymarketPriceToDecimal_def polymarketPriceToAmerican_def js_le_def
        decimalToAmerican_def js_sub_def)

lemma edge_half:
  "pm_decimalOdds pm = Some (Fin 2) \<Longrightarrow> edge pm oc = js_sub (impliedProbability oc) (Fin (1 / 2))"
  by (simp add: edge_def)

text \<open>
  C9. For a stored snapshot whose price is absent (or null) or exactly 0, \<open>compareMarkets\<close>
  skips the pair only for the reasons that depend on the game (not NHL, no moneyline
  outcome); it gives the same match as for a price of \<open>0.5\<close>: price \<open>0.5\<close>, decimal odds 2,
  American odds +100, and the edge of every outcome is its implied probability minus \<open>0.5\<close>.
\<close>

theorem missing_price_defaults:
  "price pd = None \<or> price pd = Some (Fin 0) \<Longrightarrow>
     ((compareMarkets gk bd tid pd now = None) = (sport bd \<noteq> ''NHL'' \<or> findMoneylineOutcomes bd = []))
   \<and> compareMarkets gk bd tid pd now = compareMarkets gk bd tid (pd\<lparr>price := Some (Fin 0.5)\<rparr>) now
   \<and> (\<forall>c. compareMarkets gk bd tid pd now = Some c \<longrightarrow>
         pm_price (polymarket c) = Fin 0.5
         \<and> pm_decimalOdds (polymarket c) = Some (Fin 2)
         \<and> pm_americanOdds (polymarket c) = Some (Fin 100)
         \<and> (\<forall>oc. edge (polymarket c) oc = js_sub (impliedProbability oc) (Fin 0.5)))"
proof -
  assume a: "price pd = None \<or> price pd = Some (Fin 0)"
  then have p: "priceOrDefault (price pd) = Fin 0.5" by (rule priceOrDefault_missing)
  have q: "priceOrDefault (Some (Fin 0.5)) = Fin 0.5" by (simp add: priceOrDefault_def)
  have 1: "(compareMarkets gk bd tid pd now = None) = (sport bd \<noteq> ''NHL'' \<or> findMoneylineOutcomes bd = [])"
    by (simp add: compareMarkets_def Let_def)
  have 2: "compareMarkets gk bd tid pd now = compareMarkets gk bd tid (pd\<lparr>price := Some (Fin 0.5)\<rparr>) now"
    unfolding compareMarkets_def Let_def using p q by simp
  have 3: "\<forall>c. compareMarkets gk bd tid pd now = Some c \<longrightarrow>
         pm_price (polymarket c) = Fin 0.5
         \<and> pm_decimalOdds (polymarket c) = Some (Fin 2)
         \<and> pm_americanOdds (polymarket c) = Some (Fin 100)
         \<and> (\<forall>oc. edge (polymarket c) oc = js_sub (impliedProbability oc) (Fin 0.5))"
    unfolding compareMarkets_def Let_def p
    by (auto simp: half_odds edge_half split: if_splits)
  show ?thesis by (intro conjI) (rule 1 2 3)+
qed

theorem missing_price_defaults_witness:
  "price \<lparr>price = None, pd_timestamp = 0\<rparr> = None
   \<and> compareMarkets ''k'' mockBoltData ''token-2'' \<lparr>price = None, pd_timestamp = 0\<rparr> 2000 \<noteq> None
   \<and> compareMarkets ''k'' mockBoltData ''token-2'' \<lparr>price = None, pd_timestamp = 0\<rparr> 2000
       = compareMarkets ''k'' mockBoltData ''token-2'' \<lparr>price = Some (Fin 0.5), pd_timestamp = 0\<rparr> 2000
   \<and> compareMarkets ''k'' mockBoltData ''token-2'' \<lparr>price = Some (Fin 0), pd_timestamp = 0\<rparr> 2000
       = compareMarkets ''k'' mockBoltData ''token-2'' \<lparr>price = Some (Fin 0.5), pd_timestamp = 0\<rparr> 2000"
proof -
  have h1: "price \<lparr>price = None, pd_timestamp = 0\<rparr> = None \<or>
            price \<lparr>price = None, pd_timestamp = 0\<rparr> = Some (Fin 0)" by simp
  have h2: "price \<lparr>price = Some (Fin 0), pd_timestamp = 0\<rparr> = None \<or>
            price \<lparr>price = Some (Fin 0), pd_timestamp = 0\<rparr> = Some (Fin 0)" by simp
  have n: "sport mockBoltData = ''NHL'' \<and> findMoneylineOutcomes mockBoltData \<noteq> []" by code_simp
  note t1 = missing_price_defaults[OF h1, of "''k''" mockBoltData "''token-2''" 2000]
  note t2 = missing_price_defaults[OF h2, of "''k''" mockBoltData "''token-2''" 2000]
  have 1: "compareMarkets ''k'' mockBoltData ''token-2'' \<lparr>price = None, pd_timestamp = 0\<rparr> 2000 \<noteq> None"
    using t1[THEN conjunct1] n by blast
  have 2: "compareMarkets ''k'' mockBoltData ''token-2'' \<lparr>price = None, pd_timestamp = 0\<rparr> 2000
       = compareMarkets ''k'' mockBoltData ''token-2'' \<lparr>price = Some (Fin 0.5), pd_timestamp = 0\<rparr> 2000"
    using t1[THEN conjunct2, THEN conjunct1] by simp
  have 3: "compareMarkets ''k'' mockBoltData ''token-2'' \<lparr>price = Some (Fin 0), pd_timestamp = 0\<rparr> 2000
       = compareMarkets ''k'' mockBoltData ''token-2'' \<lparr>price = Some (Fin 0.5), pd_timestamp = 0\<rparr> 2000"
    using t2[THEN conjunct2, THEN conjunct1] by simp
  have 0: "price \<lparr>price = None, pd_timestamp = 0\<rparr> = None" by simp
  show ?thesis by (intro conjI) (rule 0 1 2 3)+
qed


section \<open>The value calculation\<close>

lemma js_gt_thr_truthy: "0 \<le> thr \<Longrightarrow> js_gt v (Fin thr) \<Longrightarrow> js_truthy v"
  by (cases v) auto

lemma js_gt_trans: "js_gt a b \<Longrightarrow> js_gt b c \<Longrightarrow> js_gt a c"
  by (cases a; cases b; cases c) auto

lemma js_gt_imp_ge: "js_gt a b \<Longrightarrow> js_ge a b"
  by (cases a; cases b) auto

lemma js_not_gt_trans: "\<not> js_gt e b \<Longrightarrow> js_gt a b \<Longrightarrow> \<not> js_ge e a"
  by (cases a; cases b; cases e) auto

lemma js_not_gt_gt: "\<not> js_gt e b \<Longrightarrow> js_gt a b \<Longrightarrow> \<not> js_gt e a"
  by (cases a; cases b; cases e) auto

lemma js_not_ge_gt: "\<not> js_ge e b \<Longrightarrow> js_gt a b \<Longrightarrow> \<not> js_ge e a"
  by (cases a; cases b; cases e) auto

lemma js_gt_irrefl: "\<not> js_gt a a"
  by (cases a) auto

lemma js_gt_asym: "js_gt a b \<Longrightarrow> \<not> js_gt b a"
  by (cases a; cases b) auto

lemma js_not_ge_not_gt: "\<not> js_ge a b \<Longrightarrow> \<not> js_gt a b"
  by (cases a; cases b) auto

lemma js_not_gt_ge_trans: "\<not> js_gt e v \<Longrightarrow> js_gt v' v \<Longrightarrow> \<not> js_ge e v'"
  by (cases e; cases v; cases v') auto

lemma js_gt_not_ge: "js_gt a b \<Longrightarrow> \<not> js_ge b a"
  by (cases a; cases b) auto

text \<open>Once a best value is held, the loop keeps one and only improves it.\<close>

lemma valueLoop_Some:
  assumes "0 \<le> thr" "js_gt v (Fin thr)"
  shows "\<exists>v' o'. valueLoop thr pm xs (Some v, Some o0) = (Some v', Some o')
     \<and> js_gt v' (Fin thr)
     \<and> (\<forall>oc\<in>set xs. \<not> js_gt (edge pm oc) v')
     \<and> ((v' = v \<and> o' = o0) \<or>
        (js_gt v' v \<and> v' = edge pm o' \<and>
          (\<exists>pre post. xs = pre @ o' # post \<and> (\<forall>oc\<in>set pre. \<not> js_ge (edge pm oc) v'))))"
  using assms
proof (induction xs arbitrary: v o0)
  case Nil
  then show ?case by (simp add: js_gt_irrefl)
next
  case (Cons x xs)
  let ?e = "edge pm x"
  show ?case
  proof (cases "js_gt ?e (Fin thr) \<and> js_gt ?e v")
    case True
    then have step: "valueLoop thr pm (x # xs) (Some v, Some o0) = valueLoop thr pm xs (Some ?e, Some x)"
      by (simp add: Let_def)
    from Cons.IH[OF Cons.prems(1), of ?e x] True
    obtain v' o' where r: "valueLoop thr pm xs (Some ?e, Some x) = (Some v', Some o')"
      "js_gt v' (Fin thr)" "\<forall>oc\<in>set xs. \<not> js_gt (edge pm oc) v'"
      "(v' = ?e \<and> o' = x) \<or>
        (js_gt v' ?e \<and> v' = edge pm o' \<and>
          (\<exists>pre post. xs = pre @ o' # post \<and> (\<forall>oc\<in>set pre. \<not> js_ge (edge pm oc) v')))"
      by blast
    from r(4) show ?thesis
    proof
      assume a: "v' = ?e \<and> o' = x"
      have "x # xs = [] @ o' # xs" using a by simp
      then have "\<exists>pre post. x # xs = pre @ o' # post \<and> (\<forall>oc\<in>set pre. \<not> js_ge (edge pm oc) v')"
        by (metis empty_iff list.set(1))
      with a r True step show ?thesis
        by (auto simp: js_gt_irrefl)
    next
      assume b: "js_gt v' ?e \<and> v' = edge pm o' \<and>
          (\<exists>pre post. xs = pre @ o' # post \<and> (\<forall>oc\<in>set pre. \<not> js_ge (edge pm oc) v'))"
      then obtain pre post where pp: "xs = pre @ o' # post" "\<forall>oc\<in>set pre. \<not> js_ge (edge pm oc) v'"
        by blast
      have "x # xs = (x # pre) @ o' # post" using pp by simp
      moreover have "\<forall>oc\<in>set (x # pre). \<not> js_ge (edge pm oc) v'"
        using pp(2) b by (auto dest: js_gt_not_ge)
      ultimately have "\<exists>pre post. x # xs = pre @ o' # post \<and> (\<forall>oc\<in>set pre. \<not> js_ge (edge pm oc) v')"
        by blast
      moreover have "js_gt v' v" using b True js_gt_trans by blast
      moreover have "\<not> js_gt ?e v'" using b js_gt_asym by blast
      ultimately show ?thesis using r step b by auto
    qed
  next
    case False
    have tr: "js_truthy v" using Cons.prems js_gt_thr_truthy by blast
    from False tr have step: "valueLoop thr pm (x # xs) (Some v, Some o0) = valueLoop thr pm xs (Some v, Some o0)"
      by (auto simp: Let_def)
    have nx: "\<not> js_gt ?e v" using False Cons.prems(2) js_not_gt_gt by blast
    from Cons.IH[OF Cons.prems, of o0]
    obtain v' o' where r: "valueLoop thr pm xs (Some v, Some o0) = (Some v', Some o')"
      "js_gt v' (Fin thr)" "\<forall>oc\<in>set xs. \<not> js_gt (edge pm oc) v'"
      "(v' = v \<and> o' = o0) \<or>
        (js_gt v' v \<and> v' = edge pm o' \<and>
          (\<exists>pre post. xs = pre @ o' # post \<and> (\<forall>oc\<in>set pre. \<not> js_ge (edge pm oc) v')))"
      by blast
    from r(4) show ?thesis
    proof
      assume a: "v' = v \<and> o' = o0"
      with r step nx show ?thesis by auto
    next
      assume b: "js_gt v' v \<and> v' = edge pm o' \<and>
          (\<exists>pre post. xs = pre @ o' # post \<and> (\<forall>oc\<in>set pre. \<not> js_ge (edge pm oc) v'))"
      then obtain pre post where pp: "xs = pre @ o' # post" "\<forall>oc\<in>set pre. \<not> js_ge (edge pm oc) v'"
        by blast
      have nx': "\<not> js_ge ?e v'" using nx b js_not_gt_ge_trans by blast
      have "x # xs = (x # pre) @ o' # post" using pp by simp
      moreover have "\<forall>oc\<in>set (x # pre). \<not> js_ge (edge pm oc) v'"
        using pp(2) nx' by auto
      ultimately have "\<exists>pre post. x # xs = pre @ o' # post \<and> (\<forall>oc\<in>set pre. \<not> js_ge (edge pm oc) v')"
        by blast
      moreover have "\<not> js_gt ?e v'" using nx' js_not_ge_not_gt by blast
      ultimately show ?thesis using r step b by auto
    qed
  qed
qed


lemma valueLoop_None_none:
  "\<forall>oc\<in>set xs. \<not> js_gt (edge pm oc) (Fin thr) \<Longrightarrow> valueLoop thr pm xs (None, None) = (None, None)"
  by (induction xs) (auto simp: Let_def)

lemma valueLoop_None_some:
  assumes "0 \<le> thr" "\<exists>oc\<in>set xs. js_gt (edge pm oc) (Fin thr)"
  shows "\<exists>v' o'. valueLoop thr pm xs (None, None) = (Some v', Some o')
     \<and> js_gt v' (Fin thr) \<and> v' = edge pm o'
     \<and> (\<forall>oc\<in>set xs. \<not> js_gt (edge pm oc) v')
     \<and> (\<exists>pre post. xs = pre @ o' # post \<and> (\<forall>oc\<in>set pre. \<not> js_ge (edge pm oc) v'))"
  using assms
proof (induction xs)
  case Nil
  then show ?case by simp
next
  case (Cons x xs)
  let ?e = "edge pm x"
  show ?case
  proof (cases "js_gt ?e (Fin thr)")
    case True
    then have step: "valueLoop thr pm (x # xs) (None, None) = valueLoop thr pm xs (Some ?e, Some x)"
      by (simp add: Let_def)
    from valueLoop_Some[OF Cons.prems(1) True, of pm xs x]
    obtain v' o' where r: "valueLoop thr pm xs (Some ?e, Some x) = (Some v', Some o')"
      "js_gt v' (Fin thr)" "\<forall>oc\<in>set xs. \<not> js_gt (edge pm oc) v'"
      "(v' = ?e \<and> o' = x) \<or>
        (js_gt v' ?e \<and> v' = edge pm o' \<and>
          (\<exists>pre post. xs = pre @ o' # post \<and> (\<forall>oc\<in>set pre. \<not> js_ge (edge pm oc) v')))"
      by blast
    from r(4) show ?thesis
    proof
      assume a: "v' = ?e \<and> o' = x"
      have "x # xs = [] @ o' # xs" using a by simp
      then have "\<exists>pre post. x # xs = pre @ o' # post \<and> (\<forall>oc\<in>set pre. \<not> js_ge (edge pm oc) v')"
        by (metis empty_iff list.set(1))
      with a r step show ?thesis by (auto simp: js_gt_irrefl)
    next
      assume b: "js_gt v' ?e \<and> v' = edge pm o' \<and>
          (\<exists>pre post. xs = pre @ o' # post \<and> (\<forall>oc\<in>set pre. \<not> js_ge (edge pm oc) v'))"
      then obtain pre post where pp: "xs = pre @ o' # post" "\<forall>oc\<in>set pre. \<not> js_ge (edge pm oc) v'"
        by blast
      have "x # xs = (x # pre) @ o' # post" using pp by simp
      moreover have "\<forall>oc\<in>set (x # pre). \<not> js_ge (edge pm oc) v'"
        using pp(2) b by (auto dest: js_gt_not_ge)
      ultimately have "\<exists>pre post. x # xs = pre @ o' # post \<and> (\<forall>oc\<in>set pre. \<not> js_ge (edge pm oc) v')"
        by blast
      moreover have "\<not> js_gt ?e v'" using b js_gt_asym by blast
      ultimately show ?thesis using r step b by auto
    qed
  next
    case False
    then have step: "valueLoop thr pm (x # xs) (None, None) = valueLoop thr pm xs (None, None)"
      by (simp add: Let_def)
    from False Cons.prems have "\<exists>oc\<in>set xs. js_gt (edge pm oc) (Fin thr)" by auto
    from Cons.IH[OF Cons.prems(1) this]
    obtain v' o' pre post where r: "valueLoop thr pm xs (None, None) = (Some v', Some o')"
      "js_gt v' (Fin thr)" "v' = edge pm o'" "\<forall>oc\<in>set xs. \<not> js_gt (edge pm oc) v'"
      "xs = pre @ o' # post" "\<forall>oc\<in>set pre. \<not> js_ge (edge pm oc) v'"
      by blast
    have nx': "\<not> js_ge ?e v'" using False r(2) js_not_gt_ge_trans by blast
    have "x # xs = (x # pre) @ o' # post" using r(5) by simp
    moreover have "\<forall>oc\<in>set (x # pre). \<not> js_ge (edge pm oc) v'"
      using r(6) nx' by auto
    ultimately have "\<exists>pre post. x # xs = pre @ o' # post \<and> (\<forall>oc\<in>set pre. \<not> js_ge (edge pm oc) v')"
      by blast
    moreover have "\<not> js_gt ?e v'" using nx' js_not_ge_not_gt by blast
    ultimately show ?thesis using r step by auto
  qed
qed

lemma edge_falsy: "falsy (pm_decimalOdds pm) \<Longrightarrow> \<not> js_gt (edge pm oc) (Fin thr)"
  by (cases "pm_decimalOdds pm"; cases "impliedProbability oc"; cases "toNumber (pm_decimalOdds pm)")
     (auto simp: edge_def js_sub_def)

lemma calculateValue_None_iff:
  assumes "0 \<le> thr"
  shows "(calculateValue thr c = None) =
         (\<forall>oc\<in>set (boltOdds c). \<not> js_gt (edge (polymarket c) oc) (Fin thr))"
proof (cases "\<exists>oc\<in>set (boltOdds c). js_gt (edge (polymarket c) oc) (Fin thr)")
  case True
  then have ne: "boltOdds c \<noteq> []" by auto
  from True have nf: "\<not> falsy (pm_decimalOdds (polymarket c))" using edge_falsy by blast
  from valueLoop_None_some[OF assms True]
  obtain v' o' where r: "valueLoop thr (polymarket c) (boltOdds c) (None, None) = (Some v', Some o')"
    "js_gt v' (Fin thr)" by blast
  then have "js_truthy v'" using assms js_gt_thr_truthy by blast
  with r ne nf have "calculateValue thr c \<noteq> None" by (simp add: calculateValue_def)
  with True show ?thesis by blast
next
  case False
  then have "valueLoop thr (polymarket c) (boltOdds c) (None, None) = (None, None)"
    using valueLoop_None_none by blast
  then have "calculateValue thr c = None" by (simp add: calculateValue_def)
  with False show ?thesis by blast
qed

lemma calculateValue_Some:
  assumes "0 \<le> thr" "calculateValue thr c = Some va"
  shows "va_value va = edge (polymarket c) (va_outcome va)"
    and "js_gt (va_value va) (Fin thr)"
    and "\<forall>oc\<in>set (boltOdds c). \<not> js_gt (edge (polymarket c) oc) (va_value va)"
    and "\<exists>pre post. boltOdds c = pre @ va_outcome va # post
            \<and> (\<forall>oc\<in>set pre. \<not> js_ge (edge (polymarket c) oc) (va_value va))"
    and "polymarketOdds va = pm_decimalOdds (polymarket c)"
    and "recommendedAction va = ''buy''"
    and "va_confidence va = calculateConfidence (va_value va)"
proof -
  from assms have "\<exists>oc\<in>set (boltOdds c). js_gt (edge (polymarket c) oc) (Fin thr)"
    using calculateValue_None_iff[OF assms(1), of c] by auto
  from valueLoop_None_some[OF assms(1) this]
  obtain v' o' where r: "valueLoop thr (polymarket c) (boltOdds c) (None, None) = (Some v', Some o')"
     "js_gt v' (Fin thr)" "v' = edge (polymarket c) o'"
     "\<forall>oc\<in>set (boltOdds c). \<not> js_gt (edge (polymarket c) oc) v'"
     "\<exists>pre post. boltOdds c = pre @ o' # post \<and> (\<forall>oc\<in>set pre. \<not> js_ge (edge (polymarket c) oc) v')"
    by blast
  from assms(2) r(1) have va: "va_value va = v'" "va_outcome va = o'"
     "polymarketOdds va = pm_decimalOdds (polymarket c)" "recommendedAction va = ''buy''"
     "va_confidence va = calculateConfidence v'"
    by (auto simp: calculateValue_def split: if_splits)
  show "va_value va = edge (polymarket c) (va_outcome va)" using va r by simp
  show "js_gt (va_value va) (Fin thr)" using va r by simp
  show "\<forall>oc\<in>set (boltOdds c). \<not> js_gt (edge (polymarket c) oc) (va_value va)" using va r by simp
  show "\<exists>pre post. boltOdds c = pre @ va_outcome va # post
            \<and> (\<forall>oc\<in>set pre. \<not> js_ge (edge (polymarket c) oc) (va_value va))" using va r by simp
  show "polymarketOdds va = pm_decimalOdds (polymarket c)" using va by simp
  show "recommendedAction va = ''buy''" using va by simp
  show "va_confidence va = calculateConfidence (va_value va)" using va by simp
qed

text \<open>
  C4. With a threshold that is not negative, as the configuration schema requires: the edge
  of an outcome is its implied probability minus 1 over the price-side decimal odds;
  \<open>calculateValue\<close> gives an opportunity exactly when some outcome's edge exceeds the
  threshold, that is when the largest does; the outcome it retains has the retained edge,
  no outcome has a larger one, and every outcome before it in the list has a strictly
  smaller one (or none), so among tied outcomes the first wins.
\<close>

theorem calculateValue_best_edge:
  assumes "0 \<le> thr"
  shows "(\<forall>oc. edge (polymarket c) oc =
              js_sub (impliedProbability oc) (js_div (Fin 1) (toNumber (pm_decimalOdds (polymarket c)))))
   \<and> ((\<exists>va. calculateValue thr c = Some va)
        = (\<exists>oc\<in>set (boltOdds c). js_gt (edge (polymarket c) oc) (Fin thr)))
   \<and> (\<forall>va. calculateValue thr c = Some va \<longrightarrow>
          va_value va = edge (polymarket c) (va_outcome va)
        \<and> js_gt (va_value va) (Fin thr)
        \<and> (\<forall>oc\<in>set (boltOdds c). \<not> js_gt (edge (polymarket c) oc) (va_value va))
        \<and> (\<exists>pre post. boltOdds c = pre @ va_outcome va # post
              \<and> (\<forall>oc\<in>set pre. \<not> js_ge (edge (polymarket c) oc) (va_value va))))"
proof -
  have 1: "\<forall>oc. edge (polymarket c) oc =
              js_sub (impliedProbability oc) (js_div (Fin 1) (toNumber (pm_decimalOdds (polymarket c))))"
    by (simp add: edge_def)
  have 2: "(\<exists>va. calculateValue thr c = Some va)
        = (\<exists>oc\<in>set (boltOdds c). js_gt (edge (polymarket c) oc) (Fin thr))"
    using calculateValue_None_iff[OF assms, of c] by auto
  have 3: "\<forall>va. calculateValue thr c = Some va \<longrightarrow>
          va_value va = edge (polymarket c) (va_outcome va)
        \<and> js_gt (va_value va) (Fin thr)
        \<and> (\<forall>oc\<in>set (boltOdds c). \<not> js_gt (edge (polymarket c) oc) (va_value va))
        \<and> (\<exists>pre post. boltOdds c = pre @ va_outcome va # post
              \<and> (\<forall>oc\<in>set pre. \<not> js_ge (edge (polymarket c) oc) (va_value va)))"
    using calculateValue_Some(1-4)[OF assms] by blast
  show ?thesis by (intro conjI) (rule 1 2 3)+
qed

theorem calculateValue_best_edge_witness:
  "(0::real) \<le> 1 / 20
   \<and> js_gt (edge (polymarket tieMatch) (tieOutcome ''A'' (3 / 5))) (Fin (1 / 20))
   \<and> (\<exists>va. calculateValue (1 / 20) tieMatch = Some va)
   \<and> calculateValue (1 / 20) tieMatch =
       Some \<lparr>va_value = Fin (1 / 5), va_outcome = tieOutcome ''B'' (7 / 10),
             polymarketOdds = Some (Fin 2), recommendedAction = ''buy'', va_confidence = ''high''\<rparr>
   \<and> edge (polymarket tieMatch) (tieOutcome ''C'' (7 / 10)) = Fin (1 / 5)"
proof -
  have h: "(0::real) \<le> 1 / 20" by simp
  have m: "tieOutcome ''A'' (3 / 5) \<in> set (boltOdds tieMatch)" by code_simp
  have g: "js_gt (edge (polymarket tieMatch) (tieOutcome ''A'' (3 / 5))) (Fin (1 / 20))" by code_simp
  have e: "\<exists>va. calculateValue (1 / 20) tieMatch = Some va"
    using calculateValue_best_edge[OF h, of tieMatch, THEN conjunct2, THEN conjunct1] m g by blast
  have v: "calculateValue (1 / 20) tieMatch =
       Some \<lparr>va_value = Fin (1 / 5), va_outcome = tieOutcome ''B'' (7 / 10),
             polymarketOdds = Some (Fin 2), recommendedAction = ''buy'', va_confidence = ''high''\<rparr>"
    by code_simp
  have c: "edge (polymarket tieMatch) (tieOutcome ''C'' (7 / 10)) = Fin (1 / 5)" by code_simp
  show ?thesis by (intro conjI) (rule h g e v c)+
qed

text \<open>
  The condition on the threshold is needed. With a negative threshold a retained value of
  \<open>0\<close> is falsy, so the next outcome above the threshold replaces it even when its edge is
  smaller: here the edges are \<open>0\<close> and \<open>-0.25\<close>, and the second is retained.
\<close>

lemma calculateValue_negative_threshold_example:
  "calculateValue (- 1)
     (tieMatch\<lparr>boltOdds := [tieOutcome ''A'' (1 / 2), tieOutcome ''B'' (1 / 4)]\<rparr>)
   = Some \<lparr>va_value = Fin (- 1 / 4), va_outcome = tieOutcome ''B'' (1 / 4),
           polymarketOdds = Some (Fin 2), recommendedAction = ''buy'', va_confidence = ''low''\<rparr>"
  by code_simp

section \<open>The ranking of opportunities\<close>

subsection \<open>sorting\<close>

lemma mset_js_insert: "mset (js_insert cmp x ys) = add_mset x (mset ys)"
  by (induction ys) auto

lemma mset_js_sort: "mset (js_sort cmp xs) = mset xs"
  unfolding js_sort_def by (induction xs) (auto simp: mset_js_insert)

lemma set_js_insert: "set (js_insert cmp x ys) = insert x (set ys)"
  using mset_js_insert[of cmp x ys] by (metis set_mset_add_mset_insert set_mset_mset)

lemma set_js_sort: "set (js_sort cmp xs) = set xs"
  using mset_js_sort[of cmp xs] by (metis set_mset_mset)

lemma js_ge_trans: "js_ge a b \<Longrightarrow> js_ge b c \<Longrightarrow> js_ge a c"
  by (cases a; cases b; cases c) auto

lemma byValueDesc_finite:
  assumes "finiteValue a" "finiteValue b"
  shows "js_gt (byValueDesc a b) (Fin 0)
         = (\<not> js_ge (va_value (opp_valueAnalysis a)) (va_value (opp_valueAnalysis b)))"
    and "js_gt (byValueDesc a b) (Fin 0)
         \<Longrightarrow> js_ge (va_value (opp_valueAnalysis b)) (va_value (opp_valueAnalysis a))"
  using assms
  by (auto simp: finiteValue_def byValueDesc_def js_sub_def split: jsnum.splits)

lemma sorted_js_insert:
  assumes "finiteValue x" "\<forall>y\<in>set ys. finiteValue y" "sorted_wrt valueDesc ys"
  shows "sorted_wrt valueDesc (js_insert byValueDesc x ys)"
  using assms
proof (induction ys)
  case Nil
  then show ?case by simp
next
  case (Cons y ys)
  have fy: "finiteValue y" using Cons.prems by simp
  show ?case
  proof (cases "js_gt (byValueDesc x y) (Fin 0)")
    case True
    then have yx: "valueDesc y x" using byValueDesc_finite(2)[OF Cons.prems(1) fy] by simp
    have ih: "sorted_wrt valueDesc (js_insert byValueDesc x ys)"
      using Cons by simp
    have "\<forall>z\<in>set (js_insert byValueDesc x ys). valueDesc y z"
      using yx Cons.prems(3) by (auto simp: set_js_insert)
    with ih True show ?thesis by simp
  next
    case False
    then have xy: "valueDesc x y" using byValueDesc_finite(1)[OF Cons.prems(1) fy] by simp
    have "\<forall>z\<in>set ys. valueDesc x z"
      using xy Cons.prems(3) js_ge_trans by auto
    with xy False Cons.prems(3) show ?thesis by simp
  qed
qed

lemma sorted_js_sort:
  "\<forall>y\<in>set xs. finiteValue y \<Longrightarrow> sorted_wrt valueDesc (js_sort byValueDesc xs)"
proof (induction xs)
  case Nil
  show ?case by (simp add: js_sort_def)
next
  case (Cons x xs)
  have s: "js_sort byValueDesc (x # xs) = js_insert byValueDesc x (js_sort byValueDesc xs)"
    by (simp add: js_sort_def)
  show ?case unfolding s
    using Cons by (intro sorted_js_insert) (auto simp: set_js_sort)
qed

subsection \<open>matches built by the matching pass have no infinite probability or odds\<close>

lemma americanToDecimal_range:
  "americanToDecimal a = NaN \<or> americanToDecimal a = PInf \<or> (\<exists>d. americanToDecimal a = Fin d \<and> d \<noteq> 0)"
  by (cases a) (auto simp: americanToDecimal_def add_nonneg_eq_0_iff)

lemma calculateImpliedProbability_range:
  "calculateImpliedProbability a \<noteq> PInf \<and> calculateImpliedProbability a \<noteq> NInf"
  using americanToDecimal_range[of a]
  by (auto simp: calculateImpliedProbability_def)

lemma findMoneylineLoop_range:
  "oc \<in> set (findMoneylineLoop es) \<Longrightarrow> impliedProbability oc \<noteq> PInf \<and> impliedProbability oc \<noteq> NInf"
proof (induction es rule: findMoneylineLoop.induct)
  case 1
  then show ?case by simp
next
  case (2 k e rest)
  then show ?case
    using calculateImpliedProbability_range
    by (auto split: raw_odds.splits if_splits)
qed

lemma polymarketPriceToDecimal_range:
  "polymarketPriceToDecimal p = Some d \<Longrightarrow> d \<noteq> PInf \<and> d \<noteq> NInf"
  by (cases p) (auto simp: polymarketPriceToDecimal_def js_le_def split: if_splits)

lemma compareMarkets_finite:
  "compareMarkets gk bd tid pd now = Some c \<Longrightarrow> finiteMatch c"
  unfolding compareMarkets_def finiteMatch_def Let_def findMoneylineOutcomes_def
  by (auto split: if_splits option.splits dest: findMoneylineLoop_range polymarketPriceToDecimal_range)

lemma matchTokens_finite: "c \<in> set (matchTokens gk bd pds now) \<Longrightarrow> finiteMatch c"
  by (induction gk bd pds now rule: matchTokens.induct)
     (auto split: option.splits dest: compareMarkets_finite)

lemma matchGames_finite: "c \<in> set (matchGames gs pds now) \<Longrightarrow> finiteMatch c"
  by (induction gs pds now rule: matchGames.induct) (auto dest: matchTokens_finite)

lemma findMatchingMarkets_finite: "c \<in> set (findMatchingMarkets st now) \<Longrightarrow> finiteMatch c"
  unfolding findMatchingMarkets_def by (rule matchGames_finite)

lemma edge_finite:
  assumes "finiteMatch c" "oc \<in> set (boltOdds c)" "js_gt (edge (polymarket c) oc) (Fin thr)"
  shows "\<exists>r. edge (polymarket c) oc = Fin r"
proof -
  have i: "impliedProbability oc \<noteq> PInf" "impliedProbability oc \<noteq> NInf"
    using assms(1,2) by (auto simp: finiteMatch_def)
  have d: "toNumber (pm_decimalOdds (polymarket c)) \<noteq> PInf"
          "toNumber (pm_decimalOdds (polymarket c)) \<noteq> NInf"
    using assms(1) by (auto simp: finiteMatch_def split: option.splits)
  show ?thesis
    using assms(3) i d
    by (cases "impliedProbability oc"; cases "toNumber (pm_decimalOdds (polymarket c))")
       (auto simp: edge_def js_sub_def split: if_splits)
qed

subsection \<open>the opportunity loop\<close>

lemma opportunityLoop_matches:
  "map opp_match (opportunityLoop thr ms) = filter (\<lambda>m. calculateValue thr m \<noteq> None) ms"
  by (induction ms) (auto simp: mkOpportunity_def split: option.splits)

lemma opportunityLoop_elem:
  "opp \<in> set (opportunityLoop thr ms) \<Longrightarrow>
   \<exists>m va. m \<in> set ms \<and> calculateValue thr m = Some va \<and> opp = mkOpportunity m va"
  by (induction ms) (auto split: option.splits)

lemma mkOpportunity_fields:
  "opp_match (mkOpportunity m va) = m" "opp_valueAnalysis (mkOpportunity m va) = va"
  by (simp_all add: mkOpportunity_def)

lemma opportunityLoop_finite:
  assumes "0 \<le> thr" "\<forall>m\<in>set ms. finiteMatch m" "opp \<in> set (opportunityLoop thr ms)"
  shows "finiteValue opp"
proof -
  from opportunityLoop_elem[OF assms(3)]
  obtain m va where m: "m \<in> set ms" "calculateValue thr m = Some va" "opp = mkOpportunity m va"
    by blast
  have fm: "finiteMatch m" using assms(2) m(1) by blast
  note s = calculateValue_Some[OF assms(1) m(2)]
  from s(4) have mem: "va_outcome va \<in> set (boltOdds m)" by auto
  have "js_gt (edge (polymarket m) (va_outcome va)) (Fin thr)" using s(1) s(2) by simp
  from edge_finite[OF fm mem this] obtain r where "edge (polymarket m) (va_outcome va) = Fin r"
    by blast
  then have "va_value va = Fin r" using s(1) by simp
  then show ?thesis using m(3) by (simp add: finiteValue_def mkOpportunity_fields)
qed

subsection \<open>the time of the call only sets the time stamps\<close>

lemma compareMarkets_time:
  "compareMarkets gk bd tid pd t = map_option (stamp t) (compareMarkets gk bd tid pd now)"
  by (simp add: compareMarkets_def Let_def)

lemma matchTokens_time: "matchTokens gk bd pds t = map (stamp t) (matchTokens gk bd pds now)"
proof (induction pds)
  case Nil
  show ?case by simp
next
  case (Cons a pds)
  obtain tid pd where a: "a = (tid, pd)" by (cases a)
  show ?case unfolding a
    using Cons compareMarkets_time[of gk bd tid pd t now]
    by (cases "compareMarkets gk bd tid pd now") simp_all
qed

lemma matchGames_time: "matchGames gs pds t = map (stamp t) (matchGames gs pds now)"
proof (induction gs)
  case Nil
  show ?case by simp
next
  case (Cons a gs)
  obtain gk bd where a: "a = (gk, bd)" by (cases a)
  show ?case unfolding a using Cons matchTokens_time[of gk bd pds t now] by simp
qed

lemma calculateValue_time: "calculateValue thr (stamp t c) = calculateValue thr c"
  by (auto simp: calculateValue_def split: prod.splits option.splits)

lemma mkOpportunity_time: "mkOpportunity (stamp t m) va = atTime t (mkOpportunity m va)"
  by (simp add: mkOpportunity_def atTime_def)

lemma opportunityLoop_time:
  "opportunityLoop thr (map (stamp t) ms) = map (atTime t) (opportunityLoop thr ms)"
  by (induction ms) (auto simp: calculateValue_time mkOpportunity_time split: option.splits)

lemma byValueDesc_time: "byValueDesc (atTime t a) (atTime t b) = byValueDesc a b"
  by (simp add: byValueDesc_def atTime_def)

lemma js_insert_time:
  "js_insert byValueDesc (atTime t x) (map (atTime t) ys) = map (atTime t) (js_insert byValueDesc x ys)"
  by (induction ys) (auto simp: byValueDesc_time)

lemma js_sort_time:
  "js_sort byValueDesc (map (atTime t) xs) = map (atTime t) (js_sort byValueDesc xs)"
  unfolding js_sort_def by (induction xs) (auto simp: js_insert_time)

lemma findTradingOpportunities_time:
  "findTradingOpportunities st t = map (atTime t) (findTradingOpportunities st now)"
  unfolding findTradingOpportunities_def findMatchingMarkets_def
  using matchGames_time[of "boltOddsData st" "polymarketData st" t now]
  by (simp add: opportunityLoop_time js_sort_time)


text \<open>
  C6. With a threshold that is not negative, \<open>findTradingOpportunities\<close> returns, each once,
  exactly the matches of \<open>findMatchingMarkets\<close> in which some outcome's edge (so the best
  one) exceeds the threshold, each with the value analysis \<open>calculateValue\<close> gives for it,
  in descending order of value. It is a function of the stores, which it leaves as they
  are; a call at another time returns the same list, with the time stamps of that call.
\<close>

theorem findTradingOpportunities_ranked:
  assumes "0 \<le> valueThreshold st"
  shows "mset (map opp_match (findTradingOpportunities st now))
           = mset (filter (\<lambda>m. \<exists>oc\<in>set (boltOdds m).
                              js_gt (edge (polymarket m) oc) (Fin (valueThreshold st)))
                     (findMatchingMarkets st now))
   \<and> (\<forall>opp\<in>set (findTradingOpportunities st now).
         \<exists>va. calculateValue (valueThreshold st) (opp_match opp) = Some va
              \<and> opp = mkOpportunity (opp_match opp) va)
   \<and> sorted_wrt (\<lambda>a b. js_ge (va_value (opp_valueAnalysis a)) (va_value (opp_valueAnalysis b)))
        (findTradingOpportunities st now)
   \<and> findTradingOpportunities st later = map (atTime later) (findTradingOpportunities st now)"
proof -
  let ?thr = "valueThreshold st"
  let ?ms = "findMatchingMarkets st now"
  have q: "(\<lambda>m. calculateValue ?thr m \<noteq> None)
           = (\<lambda>m. \<exists>oc\<in>set (boltOdds m). js_gt (edge (polymarket m) oc) (Fin ?thr))"
    using calculateValue_None_iff[OF assms] by auto
  have "mset (map opp_match (findTradingOpportunities st now))
        = mset (map opp_match (opportunityLoop ?thr ?ms))"
    unfolding findTradingOpportunities_def
    using mset_js_sort[of byValueDesc "opportunityLoop ?thr ?ms"] by (metis mset_map)
  then have 1: "mset (map opp_match (findTradingOpportunities st now))
           = mset (filter (\<lambda>m. \<exists>oc\<in>set (boltOdds m). js_gt (edge (polymarket m) oc) (Fin ?thr)) ?ms)"
    unfolding opportunityLoop_matches q by simp
  have 2: "\<forall>opp\<in>set (findTradingOpportunities st now).
         \<exists>va. calculateValue ?thr (opp_match opp) = Some va \<and> opp = mkOpportunity (opp_match opp) va"
  proof
    fix opp assume "opp \<in> set (findTradingOpportunities st now)"
    then have "opp \<in> set (opportunityLoop ?thr ?ms)"
      by (simp add: findTradingOpportunities_def set_js_sort)
    from opportunityLoop_elem[OF this]
    show "\<exists>va. calculateValue ?thr (opp_match opp) = Some va \<and> opp = mkOpportunity (opp_match opp) va"
      by (auto simp: mkOpportunity_fields)
  qed
  have "\<forall>opp\<in>set (opportunityLoop ?thr ?ms). finiteValue opp"
    using opportunityLoop_finite[OF assms, of ?ms] findMatchingMarkets_finite by blast
  then have 3: "sorted_wrt valueDesc (findTradingOpportunities st now)"
    unfolding findTradingOpportunities_def by (rule sorted_js_sort)
  have 4: "findTradingOpportunities st later = map (atTime later) (findTradingOpportunities st now)"
    by (rule findTradingOpportunities_time)
  show ?thesis by (intro conjI) (rule 1 2 3 4)+
qed

theorem findTradingOpportunities_ranked_witness:
  "0 \<le> valueThreshold mockStore2
   \<and> map (\<lambda>opp. (tokenId (opp_match opp), team (va_outcome (opp_valueAnalysis opp)),
                   va_value (opp_valueAnalysis opp)))
         (findTradingOpportunities mockStore2 2000)
       = [(''token-1'', ''Boston Bruins'', Fin (9 / 20)),
          (''token-2'', ''Boston Bruins'', Fin (3 / 10)),
          (''token-1'', ''Montreal Canadiens'', Fin (27 / 110)),
          (''token-2'', ''Montreal Canadiens'', Fin (21 / 220))]
   \<and> sorted_wrt (\<lambda>a b. js_ge (va_value (opp_valueAnalysis a)) (va_value (opp_valueAnalysis b)))
        (findTradingOpportunities mockStore2 2000)
   \<and> findTradingOpportunities mockStore2 9000
       = map (atTime 9000) (findTradingOpportunities mockStore2 2000)"
proof -
  have h: "0 \<le> valueThreshold mockStore2" by code_simp
  note t = findTradingOpportunities_ranked[OF h, of 2000 9000]
  have v: "map (\<lambda>opp. (tokenId (opp_match opp), team (va_outcome (opp_valueAnalysis opp)),
                   va_value (opp_valueAnalysis opp)))
         (findTradingOpportunities mockStore2 2000)
       = [(''token-1'', ''Boston Bruins'', Fin (9 / 20)),
          (''token-2'', ''Boston Bruins'', Fin (3 / 10)),
          (''token-1'', ''Montreal Canadiens'', Fin (27 / 110)),
          (''token-2'', ''Montreal Canadiens'', Fin (21 / 220))]"
    by code_simp
  show ?thesis
    by (intro conjI)
       (rule h v t[THEN conjunct2, THEN conjunct2, THEN conjunct1]
             t[THEN conjunct2, THEN conjunct2, THEN conjunct2])+
qed

end
